theory Spec2Isabelle
  imports Main "HOL-Library.Word"
begin

section \<open>JavaScript strings and buffers\<close>

text \<open>
  A JavaScript string is a sequence of UTF-16 code units; \<open>length\<close>, \<open>substring\<close>,
  \<open>includes\<close> and the regular expressions of \<^verbatim>\<open>scrape.mjs\<close> all work on code units.
  A string is therefore a list of code units (natural numbers below 65536), and a
  \<^verbatim>\<open>Buffer\<close> is a list of bytes.  \<open>js\<close> writes an ASCII literal of the source.
\<close>

type_synonym jsstring = "nat list"
type_synonym buffer = "8 word list"

definition js :: "string \<Rightarrow> jsstring" where
  "js s = map of_char s"

definition bytes :: "string \<Rightarrow> buffer" where
  "bytes s = map of_char s"

text \<open>\<^verbatim>\<open>s.startsWith(p)\<close> and \<^verbatim>\<open>s.includes(p)\<close>.\<close>

definition startsWith :: "jsstring \<Rightarrow> jsstring \<Rightarrow> bool" where
  "startsWith s p = (take (length p) s = p)"

fun includesStr :: "jsstring \<Rightarrow> jsstring \<Rightarrow> bool" where
  "includesStr [] p = (p = [])"
| "includesStr (c # cs) p = (startsWith (c # cs) p \<or> includesStr cs p)"

text \<open>
  The class \<^verbatim>\<open>\s\<close> of a JavaScript regular expression, which is also what
  \<^verbatim>\<open>trim()\<close> strips: tab, line feed, vertical tab, form feed, carriage return, space,
  U+00A0, U+1680, U+2000 to U+200A, U+2028, U+2029, U+202F, U+205F, U+3000 and U+FEFF.
\<close>

definition isWhiteSpace :: "nat \<Rightarrow> bool" where
  "isWhiteSpace c =
     (c \<in> set [9, 10, 11, 12, 13, 32, 160, 5760, 8232, 8233, 8239, 8287, 12288, 65279]
      \<or> (8192 \<le> c \<and> c \<le> 8202))"

text \<open>The class \<^verbatim>\<open>\d\<close>: the ASCII digits only.\<close>

definition isDigit :: "nat \<Rightarrow> bool" where
  "isDigit c = (48 \<le> c \<and> c \<le> 57)"

definition trim :: "jsstring \<Rightarrow> jsstring" where
  "trim s = rev (dropWhile isWhiteSpace (rev (dropWhile isWhiteSpace s)))"

text \<open>\<^verbatim>\<open>s.substr(start, len)\<close> for a start inside the string, \<^verbatim>\<open>s.split('#')[0]\<close>.\<close>

definition substr :: "nat \<Rightarrow> nat \<Rightarrow> jsstring \<Rightarrow> jsstring" where
  "substr start len s = take len (drop start s)"

definition beforeHash :: "jsstring \<Rightarrow> jsstring" where
  "beforeHash s = takeWhile (\<lambda>c. c \<noteq> 35) s"

text \<open>A number in a template literal: its decimal digits.\<close>

fun decimal :: "nat \<Rightarrow> jsstring" where
  "decimal n = (if n < 10 then [48 + n] else decimal (n div 10) @ [48 + n mod 10])"

declare decimal.simps [simp del]

subsection \<open>Text decoding and encoding\<close>

text \<open>
  \<^verbatim>\<open>buf.toString()\<close> decodes UTF-8.  Every byte that is not part of a well-formed
  sequence becomes U+FFFD; an ASCII byte always decodes to itself.  The decoder below is
  the standard one: the code point read so far, the number of continuation bytes still
  needed and the bounds for the next byte.  A byte that cannot continue a sequence ends
  it with U+FFFD and is read again as the start of the next one.
\<close>

function utf8_decode :: "nat \<Rightarrow> nat \<Rightarrow> nat \<Rightarrow> nat \<Rightarrow> nat list \<Rightarrow> nat list" where
  "utf8_decode cp needed lo hi [] = (if needed = 0 then [] else [65533])"
| "utf8_decode cp needed lo hi (b # bs) =
     (if needed = 0 then
        (if b \<le> 127 then b # utf8_decode 0 0 128 191 bs
         else if 194 \<le> b \<and> b \<le> 223 then utf8_decode (b - 192) 1 128 191 bs
         else if 224 \<le> b \<and> b \<le> 239 then
           utf8_decode (b - 224) 2 (if b = 224 then 160 else 128) (if b = 237 then 159 else 191) bs
         else if 240 \<le> b \<and> b \<le> 244 then
           utf8_decode (b - 240) 3 (if b = 240 then 144 else 128) (if b = 244 then 143 else 191) bs
         else 65533 # utf8_decode 0 0 128 191 bs)
      else if b < lo \<or> hi < b then 65533 # utf8_decode 0 0 128 191 (b # bs)
      else if needed = 1 then (cp * 64 + (b - 128)) # utf8_decode 0 0 128 191 bs
      else utf8_decode (cp * 64 + (b - 128)) (needed - 1) 128 191 bs)"
  by pat_completeness auto
termination
  by (relation "measure (\<lambda>(cp, needed, lo, hi, bs). 2 * length bs + (if needed = 0 then 0 else 1))")
     auto

text \<open>A code point as UTF-16: one unit, or a surrogate pair above U+FFFF.\<close>

definition utf16 :: "nat \<Rightarrow> jsstring" where
  "utf16 cp = (if cp < 65536 then [cp]
               else [55296 + (cp - 65536) div 1024, 56320 + (cp - 65536) mod 1024])"

definition Buffer_toString :: "buffer \<Rightarrow> jsstring" where
  "Buffer_toString buf = concat (map utf16 (utf8_decode 0 0 128 191 (map unat buf)))"

text \<open>
  Writing a string to a file encodes it as UTF-8 (the default encoding of
  \<^verbatim>\<open>fs.writeFileSync\<close>); a surrogate without its partner is written as U+FFFD.
\<close>

definition utf8_bytes :: "nat \<Rightarrow> buffer" where
  "utf8_bytes cp =
     (if cp < 128 then [of_nat cp]
      else if cp < 2048 then [of_nat (192 + cp div 64), of_nat (128 + cp mod 64)]
      else if cp < 65536 then
        [of_nat (224 + cp div 4096), of_nat (128 + (cp div 64) mod 64), of_nat (128 + cp mod 64)]
      else
        [of_nat (240 + cp div 262144), of_nat (128 + (cp div 4096) mod 64),
         of_nat (128 + (cp div 64) mod 64), of_nat (128 + cp mod 64)])"

definition isHighSurrogate :: "nat \<Rightarrow> bool" where
  "isHighSurrogate u = (55296 \<le> u \<and> u \<le> 56319)"

definition isLowSurrogate :: "nat \<Rightarrow> bool" where
  "isLowSurrogate u = (56320 \<le> u \<and> u \<le> 57343)"

fun utf8_encode :: "jsstring \<Rightarrow> buffer" where
  "utf8_encode [] = []"
| "utf8_encode [u] =
     (if isHighSurrogate u \<or> isLowSurrogate u then utf8_bytes 65533 else utf8_bytes u)"
| "utf8_encode (u # v # us) =
     (if isHighSurrogate u \<and> isLowSurrogate v
      then utf8_bytes (65536 + (u - 55296) * 1024 + (v - 56320)) @ utf8_encode us
      else if isHighSurrogate u \<or> isLowSurrogate u then utf8_bytes 65533 @ utf8_encode (v # us)
      else utf8_bytes u @ utf8_encode (v # us))"

section \<open>Filename derivation\<close>

text \<open>
  \<^verbatim>\<open>url.match(/docid=(\d+)/)\<close>: the leftmost place where \<^verbatim>\<open>docid=\<close> is followed by
  a digit; the captured group is the longest run of digits there.  \<open>None\<close> is
  JavaScript's \<^verbatim>\<open>null\<close>.
\<close>

fun matchDocid :: "jsstring \<Rightarrow> jsstring option" where
  "matchDocid [] = None"
| "matchDocid (c # cs) =
     (if startsWith (c # cs) (js ''docid='') \<and> takeWhile isDigit (drop 6 (c # cs)) \<noteq> []
      then Some (takeWhile isDigit (drop 6 (c # cs)))
      else matchDocid cs)"

text \<open>
  \<^verbatim>\<open>.replace(/[<>:"/\\|?*]/g, '_')\<close>: the nine characters
  \<^verbatim>\<open>< > : " / \ | ? *\<close>, each replaced by an underscore (code unit 95).
\<close>

definition invalidFilenameChar :: "nat \<Rightarrow> bool" where
  "invalidFilenameChar c = (c \<in> set [60, 62, 58, 34, 47, 92, 124, 63, 42])"

definition replaceInvalidChars :: "jsstring \<Rightarrow> jsstring" where
  "replaceInvalidChars s = map (\<lambda>c. if invalidFilenameChar c then 95 else c) s"

text \<open>\<^verbatim>\<open>.replace(/\s+/g, '_')\<close>: every maximal run of white space becomes one underscore.\<close>

function replaceWhitespaceRuns :: "jsstring \<Rightarrow> jsstring" where
  "replaceWhitespaceRuns [] = []"
| "replaceWhitespaceRuns (c # cs) =
     (if isWhiteSpace c then 95 # replaceWhitespaceRuns (dropWhile isWhiteSpace cs)
      else c # replaceWhitespaceRuns cs)"
  by pat_completeness auto
termination
  by (relation "measure length") (auto simp: length_dropWhile_le less_Suc_eq_le)

definition cleanTitle :: "jsstring \<Rightarrow> jsstring" where
  "cleanTitle docTitle =
     take 100 (replaceWhitespaceRuns (replaceInvalidChars (trim docTitle)))"

text \<open>
  \<open>getFilenameFromUrl\<close>.  The two last arguments are what the final fallback reads from
  its environment: \<^verbatim>\<open>Date.now()\<close> and the text of \<^verbatim>\<open>Math.random().toString(36)\<close>.
  A title that was not supplied is the empty string (the default of the parameter).
\<close>

definition getFilenameFromUrl :: "jsstring \<Rightarrow> jsstring \<Rightarrow> nat \<Rightarrow> jsstring \<Rightarrow> jsstring" where
  "getFilenameFromUrl url docTitle timestamp random =
     (case matchDocid url of
        Some docid \<Rightarrow>
          if docTitle \<noteq> [] \<and> trim docTitle \<noteq> []
          then docid @ js ''_'' @ cleanTitle docTitle @ js ''.pdf''
          else js ''document_'' @ docid @ js ''.pdf''
      | None \<Rightarrow>
          js ''document_'' @ decimal timestamp @ js ''_'' @ substr 2 9 random @ js ''.pdf'')"

text \<open>
  The cleaning rule in the words of the specification, as one pass over the trimmed
  title: a character of \<^verbatim>\<open><>:"/\|?*\<close> becomes an underscore, a run of white space
  becomes an underscore, every other character is kept.
\<close>

function cleanOnePass :: "jsstring \<Rightarrow> jsstring" where
  "cleanOnePass [] = []"
| "cleanOnePass (c # cs) =
     (if isWhiteSpace c then 95 # cleanOnePass (dropWhile isWhiteSpace cs)
      else if invalidFilenameChar c then 95 # cleanOnePass cs
      else c # cleanOnePass cs)"
  by pat_completeness auto
termination
  by (relation "measure length") (auto simp: length_dropWhile_le less_Suc_eq_le)

section \<open>Errors\<close>

text \<open>
  Every \<^verbatim>\<open>throw\<close> and every rejected promise of the program is a value of this type.
  The three resolution errors are the \<^verbatim>\<open>Error\<close> objects of \<open>downloadFile\<close> with the
  messages "No PDF URL found in ViewFiles page", "No real PDF URL found in ViewPdf page"
  and "Still receiving HTML instead of PDF content after multiple redirects".
  \<open>ENOENT\<close> and \<open>ENAMETOOLONG\<close> are the errors of a write, with the path; \<open>TypeError\<close>
  is thrown where the program treats response data that is not a string as a string.
\<close>

datatype error =
    NetworkError jsstring
  | NoPdfUrlFound
  | NoRealPdfUrlFound
  | UnexpectedHtmlPayload
  | TypeError
  | ENOENT jsstring
  | ENAMETOOLONG jsstring
  | UploadError jsstring
  | SessionError jsstring

section \<open>The remote sink: class S3Uploader\<close>

record UploadStatistics =
  uploaded :: nat
  failed :: nat
  totalBytes :: nat

text \<open>
  The fields of the class.  \<open>client\<close> tells whether the constructor has built an
  \<^verbatim>\<open>S3Client\<close> (the field is \<^verbatim>\<open>null\<close> otherwise); \<open>bucket\<close> is \<open>None\<close> for
  \<^verbatim>\<open>undefined\<close>.
\<close>

record S3Uploader =
  enabled :: bool
  bucket :: "jsstring option"
  region :: jsstring
  prefix :: jsstring
  keepLocalFiles :: bool
  client :: bool
  stats :: UploadStatistics

text \<open>\<^verbatim>\<open>process.env\<close>: a variable is a string or is not set.\<close>

type_synonym environment = "string \<Rightarrow> jsstring option"

text \<open>\<^verbatim>\<open>process.env.X || d\<close>: the default when the variable is unset or empty.\<close>

definition orDefault :: "jsstring option \<Rightarrow> jsstring \<Rightarrow> jsstring" where
  "orDefault v d = (case v of None \<Rightarrow> d | Some x \<Rightarrow> if x = [] then d else x)"

text \<open>
  The constructor followed by \<open>initialize\<close>.  \<open>None\<close> is \<^verbatim>\<open>process.exit(1)\<close>: the sink
  is enabled and no bucket is configured.
\<close>

definition newS3Uploader :: "environment \<Rightarrow> S3Uploader option" where
  "newS3Uploader env =
     (let this = \<lparr> enabled = (env ''S3_ENABLED'' = Some (js ''true'')),
                   bucket = env ''S3_BUCKET'',
                   region = orDefault (env ''S3_REGION'') (js ''us-east-1''),
                   prefix = orDefault (env ''S3_PREFIX'') (js ''planning-docs''),
                   keepLocalFiles = (env ''KEEP_LOCAL_FILES'' \<noteq> Some (js ''false'')),
                   client = False,
                   stats = \<lparr> uploaded = 0, failed = 0, totalBytes = 0 \<rparr> \<rparr>
      in if \<not> enabled this then Some this
         else if bucket this = None \<or> bucket this = Some [] then None
         else Some (this \<lparr> client := True \<rparr>))"

definition isEnabled :: "S3Uploader \<Rightarrow> bool" where
  "isEnabled this = enabled this"

definition shouldKeepLocalFiles :: "S3Uploader \<Rightarrow> bool" where
  "shouldKeepLocalFiles this = keepLocalFiles this"

text \<open>A value in a template literal; \<^verbatim>\<open>undefined\<close> prints as its name.\<close>

definition template :: "jsstring option \<Rightarrow> jsstring" where
  "template v = (case v of None \<Rightarrow> js ''undefined'' | Some x \<Rightarrow> x)"

definition s3Key :: "S3Uploader \<Rightarrow> jsstring \<Rightarrow> jsstring \<Rightarrow> jsstring" where
  "s3Key this applicationId filename = prefix this @ js ''/'' @ applicationId @ js ''/'' @ filename"

text \<open>
  The object store behind \<^verbatim>\<open>upload.done()\<close>: given bucket, key and body it either
  rejects with an error or resolves with a result (here the stored location).
\<close>

type_synonym backend = "jsstring \<Rightarrow> jsstring \<Rightarrow> buffer \<Rightarrow> error + jsstring"

text \<open>
  \<open>upload\<close>.  The first component is how the call ends: \<open>Inl e\<close> when it throws,
  \<open>Inr None\<close> when it returns \<^verbatim>\<open>null\<close>, \<open>Inr (Some r)\<close> when it returns the result of
  the upload.  The second component is the sink afterwards.
\<close>

definition upload ::
  "backend \<Rightarrow> S3Uploader \<Rightarrow> buffer \<Rightarrow> jsstring \<Rightarrow> jsstring \<Rightarrow> (error + jsstring option) \<times> S3Uploader" where
  "upload s3 this fileBuffer filename applicationId =
     (if \<not> enabled this \<or> \<not> client this then (Inr None, this)
      else
        (case s3 (template (bucket this)) (s3Key this applicationId filename) fileBuffer of
           Inr result \<Rightarrow>
             (Inr (Some result),
              this \<lparr> stats := (stats this)
                       \<lparr> uploaded := uploaded (stats this) + 1,
                         totalBytes := totalBytes (stats this) + length fileBuffer \<rparr> \<rparr>)
         | Inl err \<Rightarrow>
             (Inl err,
              this \<lparr> stats := (stats this) \<lparr> failed := failed (stats this) + 1 \<rparr> \<rparr>)))"

text \<open>\<open>getS3Url\<close> and \<open>getPublicUrl\<close>; \<open>None\<close> is \<^verbatim>\<open>null\<close>.\<close>

definition getS3Url :: "S3Uploader \<Rightarrow> jsstring \<Rightarrow> jsstring \<Rightarrow> jsstring option" where
  "getS3Url this filename applicationId =
     (if \<not> enabled this then None
      else Some (js ''s3://'' @ template (bucket this) @ js ''/'' @ s3Key this applicationId filename))"

definition getPublicUrl :: "S3Uploader \<Rightarrow> jsstring \<Rightarrow> jsstring \<Rightarrow> jsstring option" where
  "getPublicUrl this filename applicationId =
     (if \<not> enabled this then None
      else Some (js ''https://'' @ template (bucket this) @ js ''.s3.'' @ region this
                 @ js ''.amazonaws.com/'' @ s3Key this applicationId filename))"

section \<open>The local file system\<close>

text \<open>
  The part of the file system the program touches: the directories that exist beside
  the working directory and the files written, by path.  The working directory itself
  always exists.  The failures modelled are the two the program can cause itself: a
  write into a directory that does not exist throws \<^verbatim>\<open>ENOENT\<close>, and a write under a
  file name of more than 255 bytes (as UTF-8) throws \<^verbatim>\<open>ENAMETOOLONG\<close>; a derived
  filename can be that long, since its title part is cut at 100 code units and a code
  unit can take three bytes.  The missing directory is found first, as the path is
  resolved from the left.
\<close>

record filesystem =
  dirs :: "jsstring set"
  files :: "jsstring \<rightharpoonup> buffer"

text \<open>What \<^verbatim>\<open>fs.writeFileSync\<close> is given: a string, written as UTF-8, or a buffer.\<close>

datatype filedata = Text jsstring | Binary buffer

fun fileBytes :: "filedata \<Rightarrow> buffer" where
  "fileBytes (Text s) = utf8_encode s"
| "fileBytes (Binary b) = b"

definition existsSync :: "filesystem \<Rightarrow> jsstring \<Rightarrow> bool" where
  "existsSync disk p = (p \<in> dirs disk \<or> files disk p \<noteq> None)"

definition mkdirSync :: "filesystem \<Rightarrow> jsstring \<Rightarrow> filesystem" where
  "mkdirSync disk p = disk \<lparr> dirs := insert p (dirs disk) \<rparr>"

text \<open>\<^verbatim>\<open>path.join(dir, name)\<close> for a directory name and a file name without separators.\<close>

definition pathJoin :: "jsstring \<Rightarrow> jsstring \<Rightarrow> jsstring" where
  "pathJoin dir name = dir @ js ''/'' @ name"

definition NAME_MAX :: nat where
  "NAME_MAX = 255"

text \<open>
  A write into the working directory, under one of the short names of the debug files,
  and a write into a directory beside it.
\<close>

definition writeFileSync :: "filesystem \<Rightarrow> jsstring \<Rightarrow> filedata \<Rightarrow> filesystem" where
  "writeFileSync disk name content = disk \<lparr> files := (files disk)(name \<mapsto> fileBytes content) \<rparr>"

definition writeFileSyncIn ::
  "filesystem \<Rightarrow> jsstring \<Rightarrow> jsstring \<Rightarrow> filedata \<Rightarrow> error + filesystem" where
  "writeFileSyncIn disk dir name content =
     (if dir \<notin> dirs disk then Inl (ENOENT (pathJoin dir name))
      else if length (utf8_encode name) > NAME_MAX then Inl (ENAMETOOLONG (pathJoin dir name))
      else Inr (disk \<lparr> files := (files disk)(pathJoin dir name \<mapsto> fileBytes content) \<rparr>))"

section \<open>The document resolver: the first part of downloadFile\<close>

definition BASE_URL :: jsstring where
  "BASE_URL = js ''https://idocswebdpss.meathcoco.ie/iDocsWebDPSS''"

text \<open>
  What the program reads from a response to \<^verbatim>\<open>client.get\<close>: the declared content
  type, the body as text (\<open>None\<close> when the client hands over something that is not a
  string, as it does for a body it could parse as JSON), and what the \<^verbatim>\<open>cheerio\<close> queries of \<open>downloadFile\<close> return on
  it, in document order: the \<^verbatim>\<open>src\<close> of every \<^verbatim>\<open>iframe\<close>, the \<^verbatim>\<open>href\<close> of every
  \<^verbatim>\<open>a\<close>, and the \<^verbatim>\<open>src\<close> and \<^verbatim>\<open>data\<close> of every \<^verbatim>\<open>iframe\<close>, \<^verbatim>\<open>embed\<close> or
  \<^verbatim>\<open>object\<close> (\<open>None\<close> for a missing attribute).  \<open>scriptUrl\<close> is what the regular
  expressions over the page text give (the first match of the script pattern, reduced to
  its quoted part), \<open>None\<close> when the pattern matches nowhere.  The parser and the
  regular-expression engine are libraries and are not modelled further.
\<close>

record response =
  contentType :: "jsstring option"
  body :: "jsstring option"
  iframeSrcs :: "jsstring option list"
  anchorHrefs :: "jsstring option list"
  embedded :: "(jsstring option \<times> jsstring option) list"
  scriptUrl :: "jsstring option"

text \<open>
  The portal: its answer to each of the three requests of \<open>downloadFile\<close>, by address.
  \<open>Inl\<close> is a rejected request (network error, timeout, error status).  The third
  request asks for an \<^verbatim>\<open>arraybuffer\<close> and is answered by a declared content type and
  the raw bytes.
\<close>

record portal =
  viewFiles :: "jsstring \<Rightarrow> error + response"
  viewPdf :: "jsstring \<Rightarrow> error + response"
  finalPdf :: "jsstring \<Rightarrow> error + (jsstring option \<times> buffer)"

text \<open>JavaScript truthiness of an attribute: defined and not empty.\<close>

definition truthy :: "jsstring option \<Rightarrow> bool" where
  "truthy v = (v \<noteq> None \<and> v \<noteq> Some [])"

text \<open>\<^verbatim>\<open>s.replace(/^p/, '')\<close> for a literal \<open>p\<close>.\<close>

definition removeLeading :: "jsstring \<Rightarrow> jsstring \<Rightarrow> jsstring" where
  "removeLeading p s = (if startsWith s p then drop (length p) s else s)"

text \<open>
  Stage 1, the address found in an attribute (the body of both \<^verbatim>\<open>each\<close> callbacks).
  Code unit 92 is the backslash, 46 the dot, 47 the slash.
\<close>

definition toFullUrl :: "jsstring \<Rightarrow> jsstring" where
  "toFullUrl src =
     (if startsWith src ([46, 92] @ js ''files'' @ [92]) \<or> startsWith src (js ''./files/'')
      then BASE_URL @ js ''/'' @ removeLeading (js ''./'') (removeLeading [46, 92] src)
      else if \<not> startsWith src (js ''http'') then BASE_URL @ js ''/'' @ src
      else src)"

text \<open>The loop over the elements, left at the first attribute that contains \<^verbatim>\<open>.pdf\<close>.\<close>

fun firstPdfUrl :: "jsstring option list \<Rightarrow> jsstring option" where
  "firstPdfUrl [] = None"
| "firstPdfUrl (a # as) =
     (case a of
        Some src \<Rightarrow>
          if src \<noteq> [] \<and> includesStr src (js ''.pdf'') then Some (toFullUrl src)
          else firstPdfUrl as
      | None \<Rightarrow> firstPdfUrl as)"

definition debugFile :: "string \<Rightarrow> nat \<Rightarrow> string \<Rightarrow> jsstring" where
  "debugFile stem index ext = js stem @ decimal index @ js ext"

definition stage1 :: "filesystem \<Rightarrow> nat \<Rightarrow> response \<Rightarrow> (error + jsstring) \<times> filesystem" where
  "stage1 disk index viewResponse =
     (let actualPdfUrl =
            (case firstPdfUrl (iframeSrcs viewResponse) of
               Some u \<Rightarrow> Some u
             | None \<Rightarrow> firstPdfUrl (anchorHrefs viewResponse))
      in case actualPdfUrl of
           None \<Rightarrow>
             (case body viewResponse of
                Some pageText \<Rightarrow>
                  (Inl NoPdfUrlFound,
                   writeFileSync disk (debugFile ''debug-viewfiles-'' index ''.html'')
                     (Text pageText))
              | None \<Rightarrow> (Inl TypeError, disk))
         | Some u \<Rightarrow> (Inr (beforeHash u), disk))"

text \<open>Stage 2. \<^verbatim>\<open>s.replace(/^\.?[\/\\]/, '')\<close>: an optional dot and one separator.\<close>

definition isSeparator :: "nat \<Rightarrow> bool" where
  "isSeparator c = (c = 47 \<or> c = 92)"

fun removeLeadingSeparator :: "jsstring \<Rightarrow> jsstring" where
  "removeLeadingSeparator (c # d # s) =
     (if c = 46 \<and> isSeparator d then s
      else if isSeparator c then d # s
      else c # d # s)"
| "removeLeadingSeparator [c] = (if isSeparator c then [] else [c])"
| "removeLeadingSeparator [] = []"

definition toRealUrl :: "jsstring \<Rightarrow> jsstring" where
  "toRealUrl src =
     (if \<not> startsWith src (js ''http'') then BASE_URL @ js ''/'' @ removeLeadingSeparator src
      else src)"

fun firstEmbeddedUrl :: "(jsstring option \<times> jsstring option) list \<Rightarrow> jsstring option" where
  "firstEmbeddedUrl [] = None"
| "firstEmbeddedUrl ((attrSrc, attrData) # els) =
     (let src = (if truthy attrSrc then attrSrc else attrData)
      in case src of
           Some s \<Rightarrow>
             if s \<noteq> [] \<and> (includesStr s (js ''.pdf'') \<or> includesStr s (js ''pdf''))
             then Some (toRealUrl s)
             else firstEmbeddedUrl els
         | None \<Rightarrow> firstEmbeddedUrl els)"

fun firstDocumentLink :: "jsstring option list \<Rightarrow> jsstring option" where
  "firstDocumentLink [] = None"
| "firstDocumentLink (a # as) =
     (case a of
        Some href \<Rightarrow>
          if href \<noteq> [] \<and> (includesStr href (js ''.pdf'') \<or> includesStr href (js ''GetDocument''))
          then Some (toRealUrl href)
          else firstDocumentLink as
      | None \<Rightarrow> firstDocumentLink as)"

text \<open>
  The three searches of stage 2 in their order.  The third reads the body as a string
  (\<^verbatim>\<open>pageText.match\<close>) and throws a \<^verbatim>\<open>TypeError\<close> on anything else, before the debug
  file is written; so does a write of data that is not a string.
\<close>

definition stage2 ::
  "filesystem \<Rightarrow> nat \<Rightarrow> jsstring \<Rightarrow> response \<Rightarrow> (error + jsstring) \<times> filesystem" where
  "stage2 disk index actualPdfUrl pdfPageResponse =
     (let isHtml =
            (case contentType pdfPageResponse of
               Some ct \<Rightarrow> ct \<noteq> [] \<and> includesStr ct (js ''text/html'')
             | None \<Rightarrow> False);
          notFound =
            (case body pdfPageResponse of
               Some pageText \<Rightarrow>
                 (Inl NoRealPdfUrlFound,
                  writeFileSync disk (debugFile ''debug-viewpdf-'' index ''.html'') (Text pageText))
             | None \<Rightarrow> (Inl TypeError, disk))
      in if isHtml
         then
           (let realPdfUrl =
                  (case firstEmbeddedUrl (embedded pdfPageResponse) of
                     Some u \<Rightarrow> Inr (Some u)
                   | None \<Rightarrow>
                       (case firstDocumentLink (anchorHrefs pdfPageResponse) of
                          Some u \<Rightarrow> Inr (Some u)
                        | None \<Rightarrow>
                            (case body pdfPageResponse of
                               Some pageText \<Rightarrow> Inr (map_option toRealUrl (scriptUrl pdfPageResponse))
                             | None \<Rightarrow> Inl TypeError)))
            in case realPdfUrl of
                 Inl e \<Rightarrow> (Inl e, disk)
               | Inr (Some u) \<Rightarrow> if u \<noteq> [] then (Inr (beforeHash u), disk) else notFound
               | Inr None \<Rightarrow> notFound)
         else (Inr actualPdfUrl, disk))"

text \<open>
  Stage 3, the check of the bytes fetched last.  \<open>firstBytes\<close> is the text of the
  first ten bytes.
\<close>

definition stage3 :: "filesystem \<Rightarrow> nat \<Rightarrow> buffer \<Rightarrow> (error + buffer) \<times> filesystem" where
  "stage3 disk index responseData =
     (let firstBytes = Buffer_toString (take 10 responseData)
      in if includesStr firstBytes (js ''<!DOCTYPE'') \<or> includesStr firstBytes (js ''<html'')
         then
           (Inl UnexpectedHtmlPayload,
            writeFileSync disk (debugFile ''debug-final-response-'' index ''.html'')
              (Text (Buffer_toString responseData)))
         else if \<not> startsWith firstBytes (js ''%PDF-'')
         then
           (Inr responseData,
            writeFileSync disk (debugFile ''debug-final-response-'' index ''.bin'')
              (Binary responseData))
         else (Inr responseData, disk))"

text \<open>The three requests in sequence; the first error ends the resolution.\<close>

definition resolveDocument ::
  "portal \<Rightarrow> filesystem \<Rightarrow> jsstring \<Rightarrow> nat \<Rightarrow> (error + buffer) \<times> filesystem" where
  "resolveDocument site disk url index =
     (case viewFiles site url of
        Inl e \<Rightarrow> (Inl e, disk)
      | Inr viewResponse \<Rightarrow>
          (case stage1 disk index viewResponse of
             (Inl e, disk1) \<Rightarrow> (Inl e, disk1)
           | (Inr actualPdfUrl, disk1) \<Rightarrow>
               (case viewPdf site actualPdfUrl of
                  Inl e \<Rightarrow> (Inl e, disk1)
                | Inr pdfPageResponse \<Rightarrow>
                    (case stage2 disk1 index actualPdfUrl pdfPageResponse of
                       (Inl e, disk2) \<Rightarrow> (Inl e, disk2)
                     | (Inr finalPdfUrl, disk2) \<Rightarrow>
                         (case finalPdf site finalPdfUrl of
                            Inl e \<Rightarrow> (Inl e, disk2)
                          | Inr (finalContentType, responseData) \<Rightarrow>
                              stage3 disk2 index responseData)))))"




section \<open>Persistence: the second part of downloadFile\<close>

text \<open>
  What the program prints or waits for, as far as the properties below need it: the first
  line of \<open>downloadFile\<close> for a document (index and total), the one-second pause
  \<^verbatim>\<open>setTimeout(resolve, 1000)\<close>, the line of the orchestrator for a failed document, the
  warning for an empty list, and the three parts of the final summary.
\<close>

datatype event =
    Downloading nat nat
  | Delay nat
  | FailedToDownload nat
  | NoDocumentsFound
  | DownloadSummary nat nat
  | S3Summary nat nat nat
  | FilesSavedTo jsstring

text \<open>The state a run changes: the disk, the singleton sink and the console.\<close>

record world =
  disk :: filesystem
  s3Uploader :: S3Uploader
  console :: "event list"

text \<open>
  What a run is given: the portal, the object store, the application id of the command
  line, and the clock and random source read by \<open>getFilenameFromUrl\<close> for the document
  at a position of the list.
\<close>

record runtime =
  site :: portal
  s3 :: backend
  applicationId :: jsstring
  dateNow :: "nat \<Rightarrow> nat"
  mathRandom :: "nat \<Rightarrow> jsstring"

definition downloadsFolder :: "jsstring \<Rightarrow> jsstring" where
  "downloadsFolder appId = js ''downloads_'' @ appId"

text \<open>\<^verbatim>\<open>filename.replace(/\.djvu$/, '.pdf')\<close>.\<close>

definition djvuToPdf :: "jsstring \<Rightarrow> jsstring" where
  "djvuToPdf filename =
     (if drop (length filename - 5) filename = js ''.djvu''
      then take (length filename - 5) filename @ js ''.pdf''
      else filename)"

text \<open>
  Lines 281 to 311: the upload, whose error is caught and only logged, then the local
  write, whose error is not caught.
\<close>

definition persist ::
  "runtime \<Rightarrow> world \<Rightarrow> jsstring \<Rightarrow> buffer \<Rightarrow> (error + unit) \<times> world" where
  "persist rt w filename responseData =
     (let pdfFilename = djvuToPdf filename;
          (s3Result, sink) =
            (if isEnabled (s3Uploader w)
             then (case upload (s3 rt) (s3Uploader w) responseData pdfFilename (applicationId rt) of
                     (Inr r, sink') \<Rightarrow> (r, sink')
                   | (Inl s3Error, sink') \<Rightarrow> (None, sink'))
             else (None, s3Uploader w));
          w1 = w \<lparr> s3Uploader := sink \<rparr>
      in if shouldKeepLocalFiles sink \<or> (\<not> isEnabled sink \<or> s3Result = None)
         then
           (case writeFileSyncIn (disk w1) (downloadsFolder (applicationId rt)) pdfFilename
                   (Binary responseData) of
              Inr disk' \<Rightarrow> (Inr (), w1 \<lparr> disk := disk' \<rparr>)
            | Inl e \<Rightarrow> (Inl e, w1))
         else (Inr (), w1))"

text \<open>
  \<open>downloadFile\<close>: resolution, then persistence.  Its \<^verbatim>\<open>catch\<close> logs the error and throws
  it again, so an error of either part is the error of the call.
\<close>

definition downloadFile ::
  "runtime \<Rightarrow> world \<Rightarrow> jsstring \<Rightarrow> jsstring \<Rightarrow> nat \<Rightarrow> nat \<Rightarrow> (error + unit) \<times> world" where
  "downloadFile rt w url filename index totalN =
     (let w0 = w \<lparr> console := console w @ [Downloading index totalN] \<rparr>
      in case resolveDocument (site rt) (disk w0) url index of
           (Inl e, disk') \<Rightarrow> (Inl e, w0 \<lparr> disk := disk' \<rparr>)
         | (Inr responseData, disk') \<Rightarrow> persist rt (w0 \<lparr> disk := disk' \<rparr>) filename responseData)"

section \<open>The batch orchestrator: downloadAllDocuments\<close>

record DocumentReference =
  url :: jsstring
  title :: jsstring
  docid :: jsstring

text \<open>
  The \<^verbatim>\<open>for\<close> loop.  \<open>i\<close> is the loop variable (from 0), \<open>totalN\<close> is
  \<^verbatim>\<open>links.length\<close>; the state is the two counters and the world.
\<close>

fun downloadLoop ::
  "runtime \<Rightarrow> nat \<Rightarrow> nat \<Rightarrow> DocumentReference list \<Rightarrow> nat \<times> nat \<times> world \<Rightarrow> nat \<times> nat \<times> world" where
  "downloadLoop rt totalN i [] state = state"
| "downloadLoop rt totalN i (linkObj # rest) (successCount, failCount, w) =
     (let filename = getFilenameFromUrl (url linkObj) (title linkObj) (dateNow rt i) (mathRandom rt i)
      in case downloadFile rt w (url linkObj) filename (i + 1) totalN of
           (Inr u, w') \<Rightarrow>
             downloadLoop rt totalN (i + 1) rest
               (successCount + 1, failCount, w' \<lparr> console := console w' @ [Delay 1000] \<rparr>)
         | (Inl e, w') \<Rightarrow>
             downloadLoop rt totalN (i + 1) rest
               (successCount, failCount + 1, w' \<lparr> console := console w' @ [FailedToDownload (i + 1)] \<rparr>))"

text \<open>
  What \<open>downloadFile\<close> returns for each reference of a list in turn: the first call is
  made in the given world, every later call in the world the call before it left.  The
  counters and the lines of the orchestrator have no part in it.
\<close>

fun downloadResults ::
  "runtime \<Rightarrow> nat \<Rightarrow> nat \<Rightarrow> DocumentReference list \<Rightarrow> world \<Rightarrow> (error + unit) list" where
  "downloadResults rt totalN i [] w = []"
| "downloadResults rt totalN i (linkObj # rest) w =
     (let filename = getFilenameFromUrl (url linkObj) (title linkObj) (dateNow rt i) (mathRandom rt i);
          r = downloadFile rt w (url linkObj) filename (i + 1) totalN
      in fst r # downloadResults rt totalN (i + 1) rest (snd r))"

definition countFailed :: "(error + unit) list \<Rightarrow> nat" where
  "countFailed rs = length (filter isl rs)"

definition countSucceeded :: "(error + unit) list \<Rightarrow> nat" where
  "countSucceeded rs = length (filter (\<lambda>r. \<not> isl r) rs)"

definition printSummary :: "world \<Rightarrow> world" where
  "printSummary w =
     (if \<not> enabled (s3Uploader w) then w
      else w \<lparr> console := console w @
                 [S3Summary (uploaded (stats (s3Uploader w))) (failed (stats (s3Uploader w)))
                    (totalBytes (stats (s3Uploader w)))] \<rparr>)"

definition downloadAllDocuments :: "runtime \<Rightarrow> world \<Rightarrow> DocumentReference list \<Rightarrow> world" where
  "downloadAllDocuments rt w links =
     (if length links = 0 then w \<lparr> console := console w @ [NoDocumentsFound] \<rparr>
      else
        (case downloadLoop rt (length links) 0 links (0, 0, w) of
           (successCount, failCount, w1) \<Rightarrow>
             (let w2 = w1 \<lparr> console := console w1 @ [DownloadSummary successCount failCount] \<rparr>;
                  w3 = (if isEnabled (s3Uploader w2) then printSummary w2 else w2)
              in if shouldKeepLocalFiles (s3Uploader w3) \<or> \<not> isEnabled (s3Uploader w3)
                 then w3 \<lparr> console := console w3 @ [FilesSavedTo (downloadsFolder (applicationId rt))] \<rparr>
                 else w3)))"

section \<open>The negotiator: the file list of acceptDisclaimerAndGetDocs\<close>

text \<open>
  A row of the file-list page as the loop over \<^verbatim>\<open>tr\<close> reads it: the \<^verbatim>\<open>href\<close> of
  every \<^verbatim>\<open>a\<close> below the row (\<open>None\<close> when the attribute is missing) and the text of
  every \<^verbatim>\<open>td\<close> below it, both in document order.
\<close>

record tableRow =
  rowAnchors :: "jsstring option list"
  rowCells :: "jsstring list"

text \<open>The selector \<^verbatim>\<open>a[href*="ViewFiles.aspx"]\<close>: the attribute contains the text.\<close>

definition findViewFilesLinks :: "tableRow \<Rightarrow> jsstring list" where
  "findViewFilesLinks row =
     concat (map (\<lambda>a. case a of
                          Some href \<Rightarrow> if includesStr href (js ''ViewFiles.aspx'') then [href] else []
                        | None \<Rightarrow> [])
                 (rowAnchors row))"

text \<open>The body of the loop: \<open>links\<close> is the array the loop pushes to.\<close>

definition visitRow :: "DocumentReference list \<Rightarrow> tableRow \<Rightarrow> DocumentReference list" where
  "visitRow links row =
     (case findViewFilesLinks row of
        [] \<Rightarrow> links
      | href # others \<Rightarrow>
          (case matchDocid href of
             None \<Rightarrow> links
           | Some d \<Rightarrow>
               links @ [\<lparr> url = BASE_URL @ js ''/'' @ href,
                          title = (if length (rowCells row) \<ge> 2 then trim (rowCells row ! 1) else []),
                          docid = d \<rparr>]))"

definition collectLinks :: "tableRow list \<Rightarrow> DocumentReference list" where
  "collectLinks rows = foldl visitRow [] rows"

section \<open>A run\<close>

text \<open>
  The sink is constructed when the module \<^verbatim>\<open>s3-uploader.mjs\<close> is imported, which is
  before the body of \<^verbatim>\<open>scrape.mjs\<close> runs; \<open>env\<close> is the environment the constructor
  reads.  Lines 89 to 96 then create the downloads folder, only when local files are kept
  or the sink is disabled.  \<open>None\<close> is \<^verbatim>\<open>process.exit(1)\<close>.  The command line and
  the usage text are not part of the model.
\<close>

definition startup :: "environment \<Rightarrow> jsstring \<Rightarrow> filesystem \<Rightarrow> world option" where
  "startup env appId disk0 =
     (case newS3Uploader env of
        None \<Rightarrow> None
      | Some sink \<Rightarrow>
          Some \<lparr> disk =
                   (if shouldKeepLocalFiles sink \<or> \<not> isEnabled sink
                    then (if \<not> existsSync disk0 (downloadsFolder appId)
                          then mkdirSync disk0 (downloadsFolder appId) else disk0)
                    else disk0),
                 s3Uploader = sink,
                 console = [] \<rparr>)"

text \<open>
  The links found are written to \<^verbatim>\<open>debug-links.txt\<close>, one line each, then downloaded.
  The session steps before the file list (disclaimer and postback) are not part of the
  model: a run starts from the rows of the file-list page.
\<close>

fun joinLines :: "jsstring list \<Rightarrow> jsstring" where
  "joinLines [] = []"
| "joinLines [l] = l"
| "joinLines (l # m # ls) = l @ [10] @ joinLines (m # ls)"

definition listAndDownload :: "runtime \<Rightarrow> world \<Rightarrow> tableRow list \<Rightarrow> world" where
  "listAndDownload rt w rows =
     (let links = collectLinks rows;
          linkTexts = map (\<lambda>l. url l @ js '' - '' @ title l) links;
          w1 = w \<lparr> disk := writeFileSync (disk w) (js ''debug-links.txt'') (Text (joinLines linkTexts)) \<rparr>
      in downloadAllDocuments rt w1 links)"

definition run :: "environment \<Rightarrow> runtime \<Rightarrow> filesystem \<Rightarrow> tableRow list \<Rightarrow> world option" where
  "run env rt disk0 rows =
     map_option (\<lambda>w. listAndDownload rt w rows) (startup env (applicationId rt) disk0)"

section \<open>Reading the console\<close>

text \<open>
  What the properties below read from the console of a run: the number of pauses, the
  indices of the documents started, the number of failure lines, and the counts of every
  summary printed.
\<close>

fun isDelay :: "event \<Rightarrow> bool" where
  "isDelay (Delay ms) = True"
| "isDelay e = False"

fun isFailure :: "event \<Rightarrow> bool" where
  "isFailure (FailedToDownload index) = True"
| "isFailure e = False"

fun startedIndex :: "event \<Rightarrow> nat list" where
  "startedIndex (Downloading index totalN) = [index]"
| "startedIndex e = []"

fun summaryCounts :: "event \<Rightarrow> (nat \<times> nat) list" where
  "summaryCounts (DownloadSummary successCount failCount) = [(successCount, failCount)]"
| "summaryCounts e = []"

definition delays :: "event list \<Rightarrow> nat" where
  "delays evs = length (filter isDelay evs)"

definition failures :: "event list \<Rightarrow> nat" where
  "failures evs = length (filter isFailure evs)"

definition started :: "event list \<Rightarrow> nat list" where
  "started evs = concat (map startedIndex evs)"

definition summaries :: "event list \<Rightarrow> (nat \<times> nat) list" where
  "summaries evs = concat (map summaryCounts evs)"

section \<open>Concrete inputs\<close>

text \<open>
  The inputs at which the theorems below are evaluated: an empty disk; the environment
  of a run that stores remotely only; a portal whose three answers lead to a small PDF
  (the view page holds the frame \<^verbatim>\<open>.\files\doc1.pdf\<close>); a portal that rejects every
  request; a portal that rejects the view page of document 1 and serves every other
  document; an object store that rejects every upload and one that accepts every upload.
\<close>

definition emptyDisk :: filesystem where
  "emptyDisk = \<lparr> dirs = {}, files = Map.empty \<rparr>"

definition remoteOnlyEnv :: environment where
  "remoteOnlyEnv =
     [''S3_ENABLED'' \<mapsto> js ''true'', ''KEEP_LOCAL_FILES'' \<mapsto> js ''false'',
      ''S3_BUCKET'' \<mapsto> js ''docs'']"

definition dotBackslashFrame :: jsstring where
  "dotBackslashFrame = [46, 92] @ js ''files'' @ [92] @ js ''doc1.pdf''"

definition viewPage :: response where
  "viewPage =
     \<lparr> contentType = Some (js ''text/html''), body = Some (js ''<iframe>''),
       iframeSrcs = [Some dotBackslashFrame], anchorHrefs = [], embedded = [],
       scriptUrl = None \<rparr>"

definition binaryPage :: response where
  "binaryPage =
     \<lparr> contentType = Some (js ''application/pdf''), body = Some [],
       iframeSrcs = [], anchorHrefs = [], embedded = [], scriptUrl = None \<rparr>"

definition pdfPortal :: "buffer \<Rightarrow> portal" where
  "pdfPortal payload =
     \<lparr> viewFiles = (\<lambda>u. Inr viewPage),
       viewPdf = (\<lambda>u. Inr binaryPage),
       finalPdf = (\<lambda>u. Inr (Some (js ''application/pdf''), payload)) \<rparr>"

definition offlinePortal :: portal where
  "offlinePortal =
     \<lparr> viewFiles = (\<lambda>u. Inl (NetworkError (js ''timeout''))),
       viewPdf = (\<lambda>u. Inl (NetworkError (js ''timeout''))),
       finalPdf = (\<lambda>u. Inl (NetworkError (js ''timeout''))) \<rparr>"

definition firstFailsPortal :: portal where
  "firstFailsPortal =
     (pdfPortal (bytes ''%PDF-1.4''))
       \<lparr> viewFiles :=
           (\<lambda>u. if includesStr u (js ''docid=1'') then Inl (NetworkError (js ''timeout''))
                else Inr viewPage) \<rparr>"

definition rejectingStore :: backend where
  "rejectingStore b k d = Inl (UploadError (js ''AccessDenied''))"

definition acceptingStore :: backend where
  "acceptingStore b k d = Inr (js ''s3://'' @ b @ js ''/'' @ k)"

definition testRuntime :: "portal \<Rightarrow> backend \<Rightarrow> runtime" where
  "testRuntime p st =
     \<lparr> site = p, s3 = st, applicationId = js ''2461047'',
       dateNow = (\<lambda>i. 1730000000123), mathRandom = (\<lambda>i. js ''0.4fzyo82mvyr'') \<rparr>"

definition planRow :: "string \<Rightarrow> tableRow" where
  "planRow href = \<lparr> rowAnchors = [Some (js href)], rowCells = [js ''1'', js '' Site Plan ''] \<rparr>"

text \<open>
  The world after the start of a run that stores locally only (no variable set), and the
  world after the start of a run that stores remotely only, both on an empty disk: the
  first has its downloads folder, the second has none.  Two rows of a file list.
\<close>

definition localWorld :: world where
  "localWorld =
     \<lparr> disk = \<lparr> dirs = {js ''downloads_2461047''}, files = Map.empty \<rparr>,
       s3Uploader =
         \<lparr> enabled = False, bucket = None, region = js ''us-east-1'',
           prefix = js ''planning-docs'', keepLocalFiles = True, client = False,
           stats = \<lparr> uploaded = 0, failed = 0, totalBytes = 0 \<rparr> \<rparr>,
       console = [] \<rparr>"

definition remoteOnlyWorld :: world where
  "remoteOnlyWorld =
     \<lparr> disk = emptyDisk,
       s3Uploader =
         \<lparr> enabled = True, bucket = Some (js ''docs''), region = js ''us-east-1'',
           prefix = js ''planning-docs'', keepLocalFiles = False, client = True,
           stats = \<lparr> uploaded = 0, failed = 0, totalBytes = 0 \<rparr> \<rparr>,
       console = [] \<rparr>"

definition twoRows :: "tableRow list" where
  "twoRows = [planRow ''ViewFiles.aspx?docid=1'', planRow ''ViewFiles.aspx?docid=2'']"

section \<open>Evaluation rules\<close>

lemmas js_eval = js_def bytes_def startsWith_def isDigit_def isWhiteSpace_def trim_def
  invalidFilenameChar_def replaceInvalidChars_def substr_def beforeHash_def decimal.simps
  removeLeading_def BASE_URL_def truthy_def debugFile_def pathJoin_def downloadsFolder_def
  djvuToPdf_def isSeparator_def orDefault_def template_def s3Key_def

lemmas text_eval = Buffer_toString_def utf16_def utf8_bytes_def isHighSurrogate_def
  isLowSurrogate_def

section \<open>Filename derivation: proofs\<close>


lemma ws_not_invalid: "isWhiteSpace c \<Longrightarrow> \<not> invalidFilenameChar c"
  by (auto simp: isWhiteSpace_def invalidFilenameChar_def)

lemma underscore_plain [simp]: "\<not> isWhiteSpace 95" "\<not> invalidFilenameChar 95"
  by (simp_all add: isWhiteSpace_def invalidFilenameChar_def)

lemma ws_after_replace:
  "isWhiteSpace (if invalidFilenameChar c then 95 else c) = isWhiteSpace c"
  using ws_not_invalid by auto

lemma dropWhile_replaceInvalidChars:
  "dropWhile isWhiteSpace (replaceInvalidChars cs) = replaceInvalidChars (dropWhile isWhiteSpace cs)"
  by (induction cs) (auto simp: replaceInvalidChars_def ws_after_replace dest: ws_not_invalid)

lemma two_pass_is_one_pass:
  "replaceWhitespaceRuns (replaceInvalidChars s) = cleanOnePass s"
proof (induction s rule: cleanOnePass.induct)
  case 1
  show ?case by (simp add: replaceInvalidChars_def)
next
  case (2 c cs)
  show ?case
  proof (cases "isWhiteSpace c")
    case True
    then have "replaceInvalidChars (c # cs) = c # replaceInvalidChars cs"
      by (simp add: replaceInvalidChars_def ws_not_invalid)
    with True 2(1) show ?thesis
      by (simp add: dropWhile_replaceInvalidChars)
  next
    case False
    with 2(2,3) show ?thesis
      by (cases "invalidFilenameChar c") (simp_all add: replaceInvalidChars_def)
  qed
qed

lemma replaceWhitespaceRuns_no_ws:
  "c \<in> set (replaceWhitespaceRuns s) \<Longrightarrow> \<not> isWhiteSpace c"
  by (induction s rule: replaceWhitespaceRuns.induct) (auto split: if_splits)

lemma replaceWhitespaceRuns_chars:
  "c \<in> set (replaceWhitespaceRuns s) \<Longrightarrow> c = 95 \<or> c \<in> set s"
  by (induction s rule: replaceWhitespaceRuns.induct) (auto split: if_splits dest: set_dropWhileD)

lemma replaceInvalidChars_valid:
  "c \<in> set (replaceInvalidChars s) \<Longrightarrow> \<not> invalidFilenameChar c"
  by (auto simp: replaceInvalidChars_def split: if_splits)

lemma replaceWhitespaceRuns_id:
  "\<forall>c\<in>set s. \<not> isWhiteSpace c \<Longrightarrow> replaceWhitespaceRuns s = s"
  by (induction s) auto

lemma replaceInvalidChars_id:
  "\<forall>c\<in>set s. \<not> invalidFilenameChar c \<Longrightarrow> replaceInvalidChars s = s"
  by (induction s) (auto simp: replaceInvalidChars_def)

lemma dropWhile_id: "\<forall>c\<in>set s. \<not> P c \<Longrightarrow> dropWhile P s = s"
  by (cases s) auto

lemma trim_id: "\<forall>c\<in>set s. \<not> isWhiteSpace c \<Longrightarrow> trim s = s"
  by (simp add: trim_def dropWhile_id)

lemma cleanTitle_chars:
  assumes "c \<in> set (cleanTitle t)"
  shows "\<not> isWhiteSpace c \<and> \<not> invalidFilenameChar c"
proof -
  from assms have c: "c \<in> set (replaceWhitespaceRuns (replaceInvalidChars (trim t)))"
    unfolding cleanTitle_def by (rule in_set_takeD)
  then have "\<not> isWhiteSpace c" by (rule replaceWhitespaceRuns_no_ws)
  moreover from c have "c = 95 \<or> c \<in> set (replaceInvalidChars (trim t))"
    by (rule replaceWhitespaceRuns_chars)
  then have "\<not> invalidFilenameChar c"
    by (auto dest: replaceInvalidChars_valid)
  ultimately show ?thesis by simp
qed

lemma cleanTitle_plain:
  assumes "\<forall>c\<in>set s. \<not> isWhiteSpace c \<and> \<not> invalidFilenameChar c"
  shows "cleanTitle s = take 100 s"
  using assms by (simp add: cleanTitle_def trim_id replaceInvalidChars_id replaceWhitespaceRuns_id)

lemma length_cleanTitle: "length (cleanTitle t) \<le> 100"
  by (simp add: cleanTitle_def)

lemma cleanTitle_idem: "cleanTitle (cleanTitle t) = cleanTitle t"
proof -
  have "cleanTitle (cleanTitle t) = take 100 (cleanTitle t)"
    by (rule cleanTitle_plain) (simp add: cleanTitle_chars)
  then show ?thesis by (simp add: length_cleanTitle)
qed

lemma matchDocid_sound:
  "matchDocid address = Some d \<Longrightarrow>
     \<exists>pre rest. address = pre @ js ''docid='' @ d @ rest \<and> d \<noteq> [] \<and> (\<forall>c\<in>set d. isDigit c)
        \<and> (rest = [] \<or> \<not> isDigit (hd rest))"
proof (induction address)
  case Nil
  then show ?case by simp
next
  case (Cons c cs)
  show ?case
  proof (cases "startsWith (c # cs) (js ''docid='') \<and> takeWhile isDigit (drop 6 (c # cs)) \<noteq> []")
    case True
    with Cons.prems have d: "d = takeWhile isDigit (drop 6 (c # cs))" and ne: "d \<noteq> []" by auto
    have len: "length (js ''docid='') = 6" by (simp add: js_def)
    from True have "take (length (js ''docid='')) (c # cs) = js ''docid=''"
      unfolding startsWith_def by blast
    then have p: "take 6 (c # cs) = js ''docid=''"
      by (simp only: len)
    define r where "r = drop 6 (c # cs)"
    have "c # cs = take 6 (c # cs) @ r"
      unfolding r_def by (rule append_take_drop_id [symmetric])
    moreover have "r = d @ dropWhile isDigit r"
      unfolding d r_def by (rule takeWhile_dropWhile_id [symmetric])
    ultimately have "c # cs = [] @ js ''docid='' @ d @ dropWhile isDigit r"
      using p by (metis append_Nil)
    moreover have "\<forall>x\<in>set d. isDigit x"
      unfolding d by (auto dest: set_takeWhileD)
    moreover have "dropWhile isDigit r = [] \<or> \<not> isDigit (hd (dropWhile isDigit r))"
      using hd_dropWhile by blast
    ultimately show ?thesis using ne by blast
  next
    case False
    with Cons.prems have "matchDocid cs = Some d" by (auto split: if_splits)
    from Cons.IH [OF this] obtain pre rest where
      "cs = pre @ js ''docid='' @ d @ rest" "d \<noteq> []" "\<forall>c\<in>set d. isDigit c" "rest = [] \<or> \<not> isDigit (hd rest)"
      by blast
    then have "c # cs = (c # pre) @ js ''docid='' @ d @ rest" by simp
    then show ?thesis
      using \<open>d \<noteq> []\<close> \<open>\<forall>c\<in>set d. isDigit c\<close> \<open>rest = [] \<or> \<not> isDigit (hd rest)\<close> by blast
  qed
qed

text \<open>
  Claim C4 (filename derivation).  For an address in which \<^verbatim>\<open>docid=\<close> is followed by
  digits and a title that is not empty after trimming, the filename is the digits, an
  underscore, the cleaned title and \<^verbatim>\<open>.pdf\<close>; the cleaned title is the first 100 code
  units of the trimmed title in which every character of \<^verbatim>\<open><>:"/\|?*\<close> and every run
  of white space has become one underscore (\<open>cleanOnePass\<close>, the rule in the words of the
  specification).  With such an address and no title (or a blank one) the filename is
  \<^verbatim>\<open>document_\<close>, the digits and \<^verbatim>\<open>.pdf\<close>.  Without such digits it is
  \<^verbatim>\<open>document_\<close>, the timestamp, an underscore, nine characters of the random text and
  \<^verbatim>\<open>.pdf\<close>.
\<close>

theorem C4_filename_derivation:
  "(matchDocid address = Some d \<and> trim docTitle \<noteq> [] \<longrightarrow>
      getFilenameFromUrl address docTitle timestamp random =
        d @ js ''_'' @ take 100 (cleanOnePass (trim docTitle)) @ js ''.pdf'')
   \<and> (matchDocid address = Some d \<and> trim docTitle = [] \<longrightarrow>
      getFilenameFromUrl address docTitle timestamp random = js ''document_'' @ d @ js ''.pdf'')
   \<and> (matchDocid address = None \<longrightarrow>
      getFilenameFromUrl address docTitle timestamp random =
        js ''document_'' @ decimal timestamp @ js ''_'' @ substr 2 9 random @ js ''.pdf'')"
proof -
  have "trim docTitle \<noteq> [] \<Longrightarrow> docTitle \<noteq> []"
    by (auto simp: trim_def)
  then show ?thesis
    by (auto simp: getFilenameFromUrl_def cleanTitle_def two_pass_is_one_pass)
qed

text \<open>The three cases of C4 at concrete addresses and titles.\<close>

theorem C4_filename_derivation_witness:
  "getFilenameFromUrl (js ''https://h/ViewFiles.aspx?docid=123456&x=1'') (js '' Site: Plan  A/B '') 5 (js ''0.4fzyo82mvyr'')
      = js ''123456_Site__Plan_A_B.pdf''
   \<and> getFilenameFromUrl (js ''https://h/ViewFiles.aspx?docid=123456&x=1'') [] 5 (js ''0.4fzyo82mvyr'')
      = js ''document_123456.pdf''
   \<and> getFilenameFromUrl (js ''https://h/ViewFiles.aspx?docid=&x=1'') (js ''Plan'') 1730000000123 (js ''0.4fzyo82mvyr'')
      = js ''document_1730000000123_4fzyo82mv.pdf''"
proof -
  let ?u = "js ''https://h/ViewFiles.aspx?docid=123456&x=1''"
  have m: "matchDocid ?u = Some (js ''123456'')"
    by (simp add: js_eval)
  have n: "matchDocid (js ''https://h/ViewFiles.aspx?docid=&x=1'') = None"
    by (simp add: js_eval)
  have t: "trim (js '' Site: Plan  A/B '') \<noteq> []"
    by (simp add: js_eval)
  have 1: "getFilenameFromUrl ?u (js '' Site: Plan  A/B '') 5 (js ''0.4fzyo82mvyr'')
      = js ''123456_Site__Plan_A_B.pdf''"
    using C4_filename_derivation [of ?u "js ''123456''" "js '' Site: Plan  A/B ''" 5 "js ''0.4fzyo82mvyr''"] m t
    by (simp add: js_eval)
  have 2: "getFilenameFromUrl ?u [] 5 (js ''0.4fzyo82mvyr'') = js ''document_123456.pdf''"
    using C4_filename_derivation [of ?u "js ''123456''" "[]" 5 "js ''0.4fzyo82mvyr''"] m
    by (simp add: js_eval)
  have 3: "getFilenameFromUrl (js ''https://h/ViewFiles.aspx?docid=&x=1'') (js ''Plan'') 1730000000123 (js ''0.4fzyo82mvyr'')
      = js ''document_1730000000123_4fzyo82mv.pdf''"
    using C4_filename_derivation [of "js ''https://h/ViewFiles.aspx?docid=&x=1''" "[]" "js ''Plan''" 1730000000123 "js ''0.4fzyo82mvyr''"] n
    by (simp add: js_eval)
  from 1 2 3 show ?thesis by blast
qed

section \<open>Filename properties\<close>

lemma length_getFilenameFromUrl:
  assumes "matchDocid address = Some d"
  shows "length (getFilenameFromUrl address t ts rnd) \<le> length d + 1 + 100 + 4"
proof -
  have "length (cleanTitle t) \<le> 100" by (rule length_cleanTitle)
  moreover have "length (js ''_'') = 1" "length (js ''.pdf'') = 4" "length (js ''document_'') = 9"
    by (simp_all add: js_def)
  ultimately show ?thesis
    using assms by (simp add: getFilenameFromUrl_def)
qed

text \<open>
  Claim C5 (filename derivation is deterministic, cleaning is idempotent, lengths are
  bounded), as the code has it.  For addresses with the same document id the filename is
  a function of the id and the title: it does not depend on the rest of the address, the
  clock or the random source; cleaning a cleaned title changes nothing; the cleaned title
  has at most 100 code units.  The bound of 100 is a bound on the title
  part only: the whole filename is at most the length of the document id plus 1 plus 100
  plus 4.
\<close>

theorem C5_filename_properties:
  "(matchDocid address = Some d \<and> matchDocid address' = Some d \<longrightarrow>
      getFilenameFromUrl address t ts rnd = getFilenameFromUrl address' t ts' rnd')
   \<and> cleanTitle (cleanTitle t) = cleanTitle t
   \<and> length (cleanTitle t) \<le> 100
   \<and> (matchDocid address = Some d \<longrightarrow>
      length (getFilenameFromUrl address t ts rnd) \<le> length d + 1 + 100 + 4)"
proof -
  have "getFilenameFromUrl address t ts rnd = getFilenameFromUrl address' t ts' rnd'"
    if "matchDocid address = Some d \<and> matchDocid address' = Some d"
    using that by (simp add: getFilenameFromUrl_def)
  then show ?thesis
    using cleanTitle_idem length_cleanTitle length_getFilenameFromUrl by blast
qed

text \<open>C5 at two addresses with the same document id, read at different times.\<close>

theorem C5_filename_properties_witness:
  "getFilenameFromUrl (js ''ViewFiles.aspx?docid=123456'') (js ''A  B'') 1 (js ''0.abc'')
     = getFilenameFromUrl (js ''x/ViewFiles.aspx?a=1&docid=123456'') (js ''A  B'') 2 (js ''0.xyz'')
   \<and> cleanTitle (cleanTitle (js ''A  B'')) = cleanTitle (js ''A  B'')
   \<and> length (getFilenameFromUrl (js ''ViewFiles.aspx?docid=123456'') (js ''A  B'') 1 (js ''0.abc''))
       \<le> 111"
proof -
  have m: "matchDocid (js ''ViewFiles.aspx?docid=123456'') = Some (js ''123456'')"
    "matchDocid (js ''x/ViewFiles.aspx?a=1&docid=123456'') = Some (js ''123456'')"
    by (simp_all add: js_eval)
  have l: "length (js ''123456'') + 1 + 100 + 4 = 111"
    by (simp add: js_def)
  note C5_filename_properties [of "js ''ViewFiles.aspx?docid=123456''" "js ''123456''"
        "js ''x/ViewFiles.aspx?a=1&docid=123456''" "js ''A  B''" 1 "js ''0.abc''" 2 "js ''0.xyz''"]
  with m show ?thesis
    unfolding l by blast
qed

text \<open>
  The bound of C5 as the claim words it, 100 characters plus the extension for the whole
  filename, fails: a six-digit document id and a title of 100 letters give 111 code
  units.
\<close>

theorem C5_filename_length_counterexample:
  "\<not> length (getFilenameFromUrl (js ''ViewFiles.aspx?docid=123456'') (replicate 100 65) 0 [])
       \<le> 100 + length (js ''.pdf'')"
proof -
  have plain: "\<forall>c\<in>set (replicate 100 65). \<not> isWhiteSpace c \<and> \<not> invalidFilenameChar c"
    by (simp add: isWhiteSpace_def invalidFilenameChar_def)
  have c: "cleanTitle (replicate 100 65) = replicate 100 65"
    using cleanTitle_plain [OF plain] by simp
  have t: "trim (replicate 100 65) = replicate 100 65"
    using plain by (simp add: trim_id)
  have m: "matchDocid (js ''ViewFiles.aspx?docid=123456'') = Some (js ''123456'')"
    by (simp add: js_eval)
  have "getFilenameFromUrl (js ''ViewFiles.aspx?docid=123456'') (replicate 100 65) 0 []
          = js ''123456'' @ js ''_'' @ replicate 100 65 @ js ''.pdf''"
    by (simp add: getFilenameFromUrl_def m c t)
  then show ?thesis by (simp add: js_def)
qed

section \<open>Relative paths\<close>

lemma toFullUrl_dot_backslash:
  "toFullUrl ([46, 92] @ js ''files'' @ [92] @ rest) = BASE_URL @ js ''/files'' @ [92] @ rest"
  by (simp add: toFullUrl_def js_eval)

text \<open>
  Claim C3 (stage 1, relative paths), as the code has it.  For a frame address that
  starts with \<^verbatim>\<open>.\files\\<close> the leading \<^verbatim>\<open>.\\<close> is removed and the base address and a
  slash are put in front; every other backslash stays.  For \<^verbatim>\<open>.\files\doc1.pdf\<close> stage 1
  gives the base address followed by \<^verbatim>\<open>/files\doc1.pdf\<close>.
\<close>

theorem C3_dot_backslash_frame:
  "toFullUrl ([46, 92] @ js ''files'' @ [92] @ rest) = BASE_URL @ js ''/files'' @ [92] @ rest
   \<and> stage1 dk index (r \<lparr> iframeSrcs := Some dotBackslashFrame # others \<rparr>)
       = (Inr (BASE_URL @ js ''/files'' @ [92] @ js ''doc1.pdf''), dk)"
proof -
  have "includesStr dotBackslashFrame (js ''.pdf'')"
    by (simp add: dotBackslashFrame_def js_eval)
  moreover have "dotBackslashFrame \<noteq> []"
    by (simp add: dotBackslashFrame_def)
  moreover have "toFullUrl dotBackslashFrame = BASE_URL @ js ''/files'' @ [92] @ js ''doc1.pdf''"
    unfolding dotBackslashFrame_def by (rule toFullUrl_dot_backslash)
  moreover have "beforeHash (BASE_URL @ js ''/files'' @ [92] @ js ''doc1.pdf'')
      = BASE_URL @ js ''/files'' @ [92] @ js ''doc1.pdf''"
    by (simp add: js_eval)
  ultimately have "stage1 dk index (r \<lparr> iframeSrcs := Some dotBackslashFrame # others \<rparr>)
       = (Inr (BASE_URL @ js ''/files'' @ [92] @ js ''doc1.pdf''), dk)"
    by (simp add: stage1_def)
  with toFullUrl_dot_backslash show ?thesis by blast
qed

text \<open>C3 on the view page whose only frame is \<^verbatim>\<open>.\files\doc1.pdf\<close>.\<close>

theorem C3_dot_backslash_frame_witness:
  "fst (stage1 emptyDisk 1 viewPage)
     = Inr (js ''https://idocswebdpss.meathcoco.ie/iDocsWebDPSS/files'' @ [92] @ js ''doc1.pdf'')"
proof -
  have "viewPage = viewPage \<lparr> iframeSrcs := Some dotBackslashFrame # [] \<rparr>"
    by (simp add: viewPage_def)
  then show ?thesis
    using C3_dot_backslash_frame [where rest = "[]" and dk = emptyDisk and index = 1
        and r = viewPage and others = "[]"]
    by (simp add: BASE_URL_def js_def)
qed

text \<open>
  The address C3 claims, with the backslash after \<^verbatim>\<open>files\<close> turned into a slash, is not
  what stage 1 computes.
\<close>

theorem C3_forward_slashes_counterexample:
  "fst (stage1 emptyDisk 1 viewPage) \<noteq> Inr (BASE_URL @ js ''/files/doc1.pdf'')"
  by (simp add: stage1_def viewPage_def dotBackslashFrame_def toFullUrl_def js_eval)

section \<open>The remote sink: proofs\<close>

lemma newS3Uploader_enabled:
  assumes "newS3Uploader env = Some this" and "enabled this"
  shows "client this" and "bucket this = env ''S3_BUCKET''" and "env ''S3_BUCKET'' \<noteq> None"
    and "env ''S3_BUCKET'' \<noteq> Some []"
  using assms by (auto simp: newS3Uploader_def Let_def split: if_splits)

text \<open>
  Claim C9 (upload statistics).  For an enabled sink as its constructor builds it, with
  any statistics so far: when the object store accepts the upload, \<open>upload\<close> returns the
  result, \<open>uploaded\<close> grows by one and \<open>totalBytes\<close> by the length of the buffer; when the
  store rejects it, \<open>upload\<close> throws the error of the store, \<open>failed\<close> grows by one and
  \<open>uploaded\<close> and \<open>totalBytes\<close> are unchanged.  Nothing else of the sink changes.
\<close>

theorem C9_upload_statistics:
  "newS3Uploader env = Some this \<and> enabled this \<longrightarrow>
     (store (template (bucket this)) (s3Key this appId filename) fileBuffer = Inr result \<longrightarrow>
        upload store (this \<lparr> stats := st \<rparr>) fileBuffer filename appId
          = (Inr (Some result),
             this \<lparr> stats := st \<lparr> uploaded := uploaded st + 1,
                                  totalBytes := totalBytes st + length fileBuffer \<rparr> \<rparr>))
     \<and> (store (template (bucket this)) (s3Key this appId filename) fileBuffer = Inl err \<longrightarrow>
        upload store (this \<lparr> stats := st \<rparr>) fileBuffer filename appId
          = (Inl err, this \<lparr> stats := st \<lparr> failed := failed st + 1 \<rparr> \<rparr>))"
proof (intro impI conjI)
  assume a: "newS3Uploader env = Some this \<and> enabled this"
  then have c: "client this" and e: "enabled this"
    using newS3Uploader_enabled(1) by blast+
  {
    assume "store (template (bucket this)) (s3Key this appId filename) fileBuffer = Inr result"
    with c e show "upload store (this \<lparr> stats := st \<rparr>) fileBuffer filename appId
          = (Inr (Some result),
             this \<lparr> stats := st \<lparr> uploaded := uploaded st + 1,
                                  totalBytes := totalBytes st + length fileBuffer \<rparr> \<rparr>)"
      by (simp add: upload_def s3Key_def)
  }
  {
    assume "store (template (bucket this)) (s3Key this appId filename) fileBuffer = Inl err"
    with c e show "upload store (this \<lparr> stats := st \<rparr>) fileBuffer filename appId
          = (Inl err, this \<lparr> stats := st \<lparr> failed := failed st + 1 \<rparr> \<rparr>)"
      by (simp add: upload_def s3Key_def)
  }
qed

lemma remoteOnlySink:
  "newS3Uploader remoteOnlyEnv
     = Some \<lparr> enabled = True, bucket = Some (js ''docs''), region = js ''us-east-1'',
              prefix = js ''planning-docs'', keepLocalFiles = False, client = True,
              stats = \<lparr> uploaded = 0, failed = 0, totalBytes = 0 \<rparr> \<rparr>"
  by (simp add: newS3Uploader_def remoteOnlyEnv_def orDefault_def js_def)

text \<open>C9 for an accepted and for a rejected upload of eight bytes.\<close>

theorem C9_upload_statistics_witness:
  "map_option (\<lambda>this. (fst (upload acceptingStore this (bytes ''%PDF-1.4'') (js ''1_Plan.pdf'') (js ''2461047'')),
                        stats (snd (upload acceptingStore this (bytes ''%PDF-1.4'') (js ''1_Plan.pdf'') (js ''2461047''))),
                        fst (upload rejectingStore this (bytes ''%PDF-1.4'') (js ''1_Plan.pdf'') (js ''2461047'')),
                        stats (snd (upload rejectingStore this (bytes ''%PDF-1.4'') (js ''1_Plan.pdf'') (js ''2461047'')))))
      (newS3Uploader remoteOnlyEnv)
   = Some (Inr (Some (js ''s3://docs/planning-docs/2461047/1_Plan.pdf'')),
           \<lparr> uploaded = 1, failed = 0, totalBytes = 8 \<rparr>,
           Inl (UploadError (js ''AccessDenied'')),
           \<lparr> uploaded = 0, failed = 1, totalBytes = 0 \<rparr>)"
proof -
  let ?sink = "\<lparr> enabled = True, bucket = Some (js ''docs''), region = js ''us-east-1'',
              prefix = js ''planning-docs'', keepLocalFiles = False, client = True,
              stats = \<lparr> uploaded = 0, failed = 0, totalBytes = 0 \<rparr> \<rparr>"
  let ?st = "\<lparr> uploaded = 0, failed = 0, totalBytes = 0 \<rparr>"
  have s: "?sink \<lparr> stats := ?st \<rparr> = ?sink" by simp
  have ok: "acceptingStore (template (bucket ?sink)) (s3Key ?sink (js ''2461047'') (js ''1_Plan.pdf''))
              (bytes ''%PDF-1.4'') = Inr (js ''s3://docs/planning-docs/2461047/1_Plan.pdf'')"
    by (simp add: acceptingStore_def template_def s3Key_def js_def)
  have no: "rejectingStore (template (bucket ?sink)) (s3Key ?sink (js ''2461047'') (js ''1_Plan.pdf''))
              (bytes ''%PDF-1.4'') = Inl (UploadError (js ''AccessDenied''))"
    by (simp add: rejectingStore_def)
  have 1: "upload acceptingStore ?sink (bytes ''%PDF-1.4'') (js ''1_Plan.pdf'') (js ''2461047'')
      = (Inr (Some (js ''s3://docs/planning-docs/2461047/1_Plan.pdf'')),
         ?sink \<lparr> stats := ?st \<lparr> uploaded := uploaded ?st + 1,
                                  totalBytes := totalBytes ?st + length (bytes ''%PDF-1.4'') \<rparr> \<rparr>)"
    using C9_upload_statistics [of remoteOnlyEnv ?sink acceptingStore "js ''2461047''" "js ''1_Plan.pdf''"
        "bytes ''%PDF-1.4''" "js ''s3://docs/planning-docs/2461047/1_Plan.pdf''" ?st]
      remoteOnlySink ok unfolding s by simp
  have 2: "upload rejectingStore ?sink (bytes ''%PDF-1.4'') (js ''1_Plan.pdf'') (js ''2461047'')
      = (Inl (UploadError (js ''AccessDenied'')), ?sink \<lparr> stats := ?st \<lparr> failed := failed ?st + 1 \<rparr> \<rparr>)"
    using C9_upload_statistics [of remoteOnlyEnv ?sink rejectingStore "js ''2461047''" "js ''1_Plan.pdf''"
        "bytes ''%PDF-1.4''" _ ?st "UploadError (js ''AccessDenied'')"]
      remoteOnlySink no unfolding s by simp
  show ?thesis
    unfolding remoteOnlySink option.map 1 2 by (simp add: bytes_def)
qed

text \<open>
  Claim C10 (address formatting).  On a disabled sink \<open>getS3Url\<close> and \<open>getPublicUrl\<close>
  return \<^verbatim>\<open>null\<close>.  On an enabled sink they return the two addresses built from bucket,
  region, prefix, application id and filename; for a sink built by the constructor the
  bucket is the one of the environment.  Both are functions of the sink's configuration
  only: they return no new sink, and their result does not depend on the statistics.
\<close>

theorem C10_address_formatting:
  "(\<not> enabled this \<longrightarrow> getS3Url this filename appId = None \<and> getPublicUrl this filename appId = None)
   \<and> (enabled this \<longrightarrow>
        getS3Url this filename appId
          = Some (js ''s3://'' @ template (bucket this) @ js ''/'' @ prefix this @ js ''/''
                  @ appId @ js ''/'' @ filename)
        \<and> getPublicUrl this filename appId
          = Some (js ''https://'' @ template (bucket this) @ js ''.s3.'' @ region this
                  @ js ''.amazonaws.com/'' @ prefix this @ js ''/'' @ appId @ js ''/'' @ filename))
   \<and> (newS3Uploader env = Some this \<and> enabled this \<longrightarrow>
        (\<exists>b. env ''S3_BUCKET'' = Some b \<and> template (bucket this) = b))
   \<and> getS3Url (this \<lparr> stats := st \<rparr>) filename appId = getS3Url this filename appId
   \<and> getPublicUrl (this \<lparr> stats := st \<rparr>) filename appId = getPublicUrl this filename appId"
proof -
  have "\<exists>b. env ''S3_BUCKET'' = Some b \<and> template (bucket this) = b"
    if "newS3Uploader env = Some this \<and> enabled this"
    using newS3Uploader_enabled(2,3) [of env this] that by (auto simp: template_def)
  then show ?thesis
    by (simp add: getS3Url_def getPublicUrl_def s3Key_def)
qed

text \<open>C10 on the sink of a remote-only run and on a disabled sink.\<close>

theorem C10_address_formatting_witness:
  "map_option (\<lambda>this. (getS3Url this (js ''1_Plan.pdf'') (js ''2461047''),
                        getPublicUrl this (js ''1_Plan.pdf'') (js ''2461047'')))
      (newS3Uploader remoteOnlyEnv)
     = Some (Some (js ''s3://docs/planning-docs/2461047/1_Plan.pdf''),
             Some (js ''https://docs.s3.us-east-1.amazonaws.com/planning-docs/2461047/1_Plan.pdf''))
   \<and> map_option (\<lambda>this. (getS3Url this (js ''1_Plan.pdf'') (js ''2461047''),
                        getPublicUrl this (js ''1_Plan.pdf'') (js ''2461047'')))
      (newS3Uploader Map.empty)
     = Some (None, None)"
proof -
  let ?sink = "\<lparr> enabled = True, bucket = Some (js ''docs''), region = js ''us-east-1'',
              prefix = js ''planning-docs'', keepLocalFiles = False, client = True,
              stats = \<lparr> uploaded = 0, failed = 0, totalBytes = 0 \<rparr> \<rparr>"
  let ?off = "\<lparr> enabled = False, bucket = None, region = js ''us-east-1'',
              prefix = js ''planning-docs'', keepLocalFiles = True, client = False,
              stats = \<lparr> uploaded = 0, failed = 0, totalBytes = 0 \<rparr> \<rparr>"
  have off: "newS3Uploader Map.empty = Some ?off"
    by (simp add: newS3Uploader_def orDefault_def js_def)
  have 1: "getS3Url ?sink (js ''1_Plan.pdf'') (js ''2461047'')
             = Some (js ''s3://docs/planning-docs/2461047/1_Plan.pdf'')"
    and 2: "getPublicUrl ?sink (js ''1_Plan.pdf'') (js ''2461047'')
             = Some (js ''https://docs.s3.us-east-1.amazonaws.com/planning-docs/2461047/1_Plan.pdf'')"
    using C10_address_formatting [of ?sink "js ''1_Plan.pdf''" "js ''2461047''" remoteOnlyEnv]
    by (simp_all add: template_def js_def)
  have 3: "getS3Url ?off (js ''1_Plan.pdf'') (js ''2461047'') = None"
    and 4: "getPublicUrl ?off (js ''1_Plan.pdf'') (js ''2461047'') = None"
    using C10_address_formatting [of ?off "js ''1_Plan.pdf''" "js ''2461047''" Map.empty]
    by simp_all
  show ?thesis
    unfolding remoteOnlySink off option.map 1 2 3 4 by simp
qed

section \<open>The negotiator: proofs\<close>

lemma visitRow_append: "visitRow links row = links @ visitRow [] row"
  by (simp add: visitRow_def split: list.splits option.splits)

lemma foldl_visitRow: "foldl visitRow links rows = links @ concat (map (visitRow []) rows)"
proof (induction rows arbitrary: links)
  case Nil
  show ?case by simp
next
  case (Cons row rows)
  have "foldl visitRow links (row # rows) = foldl visitRow (visitRow links row) rows"
    by simp
  also have "\<dots> = visitRow links row @ concat (map (visitRow []) rows)"
    by (rule Cons.IH)
  also have "\<dots> = links @ concat (map (visitRow []) (row # rows))"
    using visitRow_append [of links row] by simp
  finally show ?case .
qed

lemma matchDocid_BASE_URL: "matchDocid (BASE_URL @ js ''/'' @ href) = matchDocid href"
  by (simp add: BASE_URL_def js_def startsWith_def)

lemma visitRow_cases:
  "visitRow [] row = []
   \<or> (\<exists>href others d. findViewFilesLinks row = href # others \<and> matchDocid href = Some d
        \<and> visitRow [] row =
            [\<lparr> url = BASE_URL @ js ''/'' @ href,
               title = (if length (rowCells row) \<ge> 2 then trim (rowCells row ! 1) else []),
               docid = d \<rparr>])"
  by (simp add: visitRow_def split: list.splits option.splits)

lemma visitRow_reference:
  assumes "ref \<in> set (visitRow [] row)"
  shows "docid ref \<noteq> [] \<and> (\<forall>c\<in>set (docid ref). isDigit c)
         \<and> matchDocid (url ref) = Some (docid ref)
         \<and> (\<exists>href others. findViewFilesLinks row = href # others
               \<and> matchDocid href = Some (docid ref) \<and> url ref = BASE_URL @ js ''/'' @ href)"
proof -
  from assms visitRow_cases [of row] obtain href others d where
    f: "findViewFilesLinks row = href # others" and m: "matchDocid href = Some d"
    and r: "visitRow [] row =
            [\<lparr> url = BASE_URL @ js ''/'' @ href,
               title = (if length (rowCells row) \<ge> 2 then trim (rowCells row ! 1) else []),
               docid = d \<rparr>]"
    by auto
  from assms r have u: "url ref = BASE_URL @ js ''/'' @ href" and d: "docid ref = d"
    by auto
  from matchDocid_sound [OF m] have "d \<noteq> []" "\<forall>c\<in>set d. isDigit c"
    by auto
  moreover have "matchDocid (url ref) = Some d"
    unfolding u matchDocid_BASE_URL by (rule m)
  ultimately show ?thesis
    using u d m f by blast
qed

text \<open>
  Claim C8 (output of the negotiator).  The references are the rows' references in row
  order, at most one per row; a row without a view-files link, or whose (first) link has
  no document id, gives none; every reference carries a non-empty document id of digits,
  which is the one the pattern finds in the href of its row's link and also the one the
  pattern finds in the reference's address.
\<close>

theorem C8_negotiator_output:
  "collectLinks rows = concat (map (visitRow []) rows)
   \<and> (\<forall>row. length (visitRow [] row) \<le> 1)
   \<and> (\<forall>row. findViewFilesLinks row = [] \<or> matchDocid (hd (findViewFilesLinks row)) = None
          \<longrightarrow> visitRow [] row = [])
   \<and> (\<forall>ref\<in>set (collectLinks rows).
         docid ref \<noteq> [] \<and> (\<forall>c\<in>set (docid ref). isDigit c)
         \<and> matchDocid (url ref) = Some (docid ref)
         \<and> (\<exists>row\<in>set rows. \<exists>href others. findViewFilesLinks row = href # others
               \<and> matchDocid href = Some (docid ref) \<and> url ref = BASE_URL @ js ''/'' @ href))"
proof -
  have 1: "collectLinks rows = concat (map (visitRow []) rows)"
    using foldl_visitRow [of "[]" rows] by (simp add: collectLinks_def)
  have 2: "length (visitRow [] row) \<le> 1" for row
    using visitRow_cases [of row] by auto
  have 3: "visitRow [] row = []"
    if "findViewFilesLinks row = [] \<or> matchDocid (hd (findViewFilesLinks row)) = None" for row
    using visitRow_cases [of row] that by auto
  have 4: "docid ref \<noteq> [] \<and> (\<forall>c\<in>set (docid ref). isDigit c)
         \<and> matchDocid (url ref) = Some (docid ref)
         \<and> (\<exists>row\<in>set rows. \<exists>href others. findViewFilesLinks row = href # others
               \<and> matchDocid href = Some (docid ref) \<and> url ref = BASE_URL @ js ''/'' @ href)"
    if "ref \<in> set (collectLinks rows)" for ref
  proof -
    from that obtain row where row: "row \<in> set rows" and "ref \<in> set (visitRow [] row)"
      unfolding 1 by auto
    from visitRow_reference [OF this(2)] row show ?thesis by blast
  qed
  from 1 2 3 4 show ?thesis by blast
qed

text \<open>C8 on five rows, two of which have no usable link.\<close>

theorem C8_negotiator_output_witness:
  "map docid (collectLinks [planRow ''ViewFiles.aspx?docid=11'', planRow ''ViewFiles.aspx?docid='',
      planRow ''ViewFiles.aspx?docid=12&x=1'', planRow ''other.aspx?docid=7'',
      planRow ''ViewFiles.aspx?id=3&docid=13''])
     = [js ''11'', js ''12'', js ''13'']
   \<and> list_all (\<lambda>ref. matchDocid (url ref) = Some (docid ref))
       (collectLinks [planRow ''ViewFiles.aspx?docid=11'', planRow ''ViewFiles.aspx?docid='',
          planRow ''ViewFiles.aspx?docid=12&x=1'', planRow ''other.aspx?docid=7'',
          planRow ''ViewFiles.aspx?id=3&docid=13''])"
proof -
  let ?rows = "[planRow ''ViewFiles.aspx?docid=11'', planRow ''ViewFiles.aspx?docid='',
      planRow ''ViewFiles.aspx?docid=12&x=1'', planRow ''other.aspx?docid=7'',
      planRow ''ViewFiles.aspx?id=3&docid=13'']"
  note t = C8_negotiator_output [of ?rows]
  from t have c: "collectLinks ?rows = concat (map (visitRow []) ?rows)"
    by blast
  have "map docid (concat (map (visitRow []) ?rows)) = [js ''11'', js ''12'', js ''13'']"
    by (simp add: visitRow_def findViewFilesLinks_def planRow_def js_eval)
  with c have 1: "map docid (collectLinks ?rows) = [js ''11'', js ''12'', js ''13'']"
    by simp
  from t have "\<forall>ref\<in>set (collectLinks ?rows). matchDocid (url ref) = Some (docid ref)"
    by blast
  then have 2: "list_all (\<lambda>ref. matchDocid (url ref) = Some (docid ref)) (collectLinks ?rows)"
    by (simp add: list_all_iff)
  from 1 2 show ?thesis by blast
qed

section \<open>Binary validation: proofs\<close>












section \<open>The orchestrator: proofs\<close>

lemma persist_console: "console (snd (persist rt w filename responseData)) = console w"
  by (simp add: persist_def Let_def split: prod.splits sum.splits if_splits)

lemma downloadFile_console:
  "console (snd (downloadFile rt w address filename index n)) = console w @ [Downloading index n]"
proof -
  let ?w0 = "w \<lparr> console := console w @ [Downloading index n] \<rparr>"
  show ?thesis
  proof (cases "resolveDocument (site rt) (disk ?w0) address index")
    case (Pair r dk)
    show ?thesis
    proof (cases r)
      case (Inl e)
      with Pair show ?thesis by (simp add: downloadFile_def)
    next
      case (Inr responseData)
      with Pair have "downloadFile rt w address filename index n
          = persist rt (?w0 \<lparr> disk := dk \<rparr>) filename responseData"
        by (simp add: downloadFile_def)
      then show ?thesis by (simp add: persist_console)
    qed
  qed
qed

lemma console_append [simp]:
  "delays (xs @ ys) = delays xs + delays ys"
  "failures (xs @ ys) = failures xs + failures ys"
  "started (xs @ ys) = started xs @ started ys"
  "summaries (xs @ ys) = summaries xs @ summaries ys"
  by (simp_all add: delays_def failures_def started_def summaries_def)

lemma console_Nil [simp]:
  "delays [] = 0" "failures [] = 0" "started [] = []" "summaries [] = []"
  by (simp_all add: delays_def failures_def started_def summaries_def)

lemma console_Cons [simp]:
  "delays (e # es) = (if isDelay e then 1 else 0) + delays es"
  "failures (e # es) = (if isFailure e then 1 else 0) + failures es"
  "started (e # es) = startedIndex e @ started es"
  "summaries (e # es) = summaryCounts e @ summaries es"
  by (simp_all add: delays_def failures_def started_def summaries_def)

lemma downloadLoop_console:
  "downloadLoop rt n i links (s, f, w) = (s', f', w') \<Longrightarrow>
     \<exists>evs. console w' = console w @ evs
        \<and> started evs = [Suc i..<Suc i + length links]
        \<and> s' = s + delays evs \<and> f' = f + failures evs
        \<and> delays evs + failures evs = length links
        \<and> summaries evs = []"
proof (induction links arbitrary: i s f w)
  case Nil
  then show ?case by simp
next
  case (Cons linkObj rest)
  let ?filename = "getFilenameFromUrl (url linkObj) (title linkObj) (dateNow rt i) (mathRandom rt i)"
  let ?r = "downloadFile rt w (url linkObj) ?filename (i + 1) n"
  have c: "console (snd ?r) = console w @ [Downloading (Suc i) n]"
    using downloadFile_console [of rt w "url linkObj" ?filename "i + 1" n] by simp
  have u: "[Suc i..<Suc i + length (linkObj # rest)] = Suc i # [Suc (Suc i)..<Suc (Suc i) + length rest]"
    using upt_conv_Cons [of "Suc i" "Suc i + length (linkObj # rest)"] by simp
  show ?case
  proof (cases "fst ?r")
    case (Inr unit)
    let ?w1 = "(snd ?r) \<lparr> console := console (snd ?r) @ [Delay 1000] \<rparr>"
    from Inr Cons.prems have "downloadLoop rt n (Suc i) rest (s + 1, f, ?w1) = (s', f', w')"
      by (simp add: Let_def split: prod.splits sum.splits)
    from Cons.IH [OF this] obtain evs where
      e: "console w' = console ?w1 @ evs" "started evs = [Suc (Suc i)..<Suc (Suc i) + length rest]"
        "s' = s + 1 + delays evs" "f' = f + failures evs"
        "delays evs + failures evs = length rest" "summaries evs = []"
      by blast
    let ?evs = "[Downloading (Suc i) n] @ [Delay 1000] @ evs"
    have "console w' = console w @ ?evs" using e(1) c by simp
    moreover have "started ?evs = [Suc i..<Suc i + length (linkObj # rest)]"
      unfolding u using e(2) by simp
    moreover have "s' = s + delays ?evs" "f' = f + failures ?evs"
      "delays ?evs + failures ?evs = length (linkObj # rest)" "summaries ?evs = []"
      using e by simp_all
    ultimately show ?thesis by blast
  next
    case (Inl err)
    let ?w1 = "(snd ?r) \<lparr> console := console (snd ?r) @ [FailedToDownload (i + 1)] \<rparr>"
    from Inl Cons.prems have "downloadLoop rt n (Suc i) rest (s, f + 1, ?w1) = (s', f', w')"
      by (simp add: Let_def split: prod.splits sum.splits)
    from Cons.IH [OF this] obtain evs where
      e: "console w' = console ?w1 @ evs" "started evs = [Suc (Suc i)..<Suc (Suc i) + length rest]"
        "s' = s + delays evs" "f' = f + 1 + failures evs"
        "delays evs + failures evs = length rest" "summaries evs = []"
      by blast
    let ?evs = "[Downloading (Suc i) n] @ [FailedToDownload (i + 1)] @ evs"
    have "console w' = console w @ ?evs" using e(1) c by simp
    moreover have "started ?evs = [Suc i..<Suc i + length (linkObj # rest)]"
      unfolding u using e(2) by simp
    moreover have "s' = s + delays ?evs" "f' = f + failures ?evs"
      "delays ?evs + failures ?evs = length (linkObj # rest)" "summaries ?evs = []"
      using e by simp_all
    ultimately show ?thesis by blast
  qed
qed

lemma downloadAllDocuments_console:
  assumes "links \<noteq> []"
  shows "\<exists>evs rest. console (downloadAllDocuments rt w links)
            = console w @ evs @ [DownloadSummary (delays evs) (failures evs)] @ rest
          \<and> started evs = [1..<Suc (length links)]
          \<and> delays evs + failures evs = length links
          \<and> summaries evs = []
          \<and> delays rest = 0 \<and> failures rest = 0 \<and> started rest = [] \<and> summaries rest = []"
proof -
  obtain s f w1 where l: "downloadLoop rt (length links) 0 links (0, 0, w) = (s, f, w1)"
    by (metis prod_cases3)
  from downloadLoop_console [OF l] obtain evs where
    e: "console w1 = console w @ evs" "started evs = [Suc 0..<Suc 0 + length links]"
      "s = delays evs" "f = failures evs" "delays evs + failures evs = length links"
      "summaries evs = []"
    by auto
  let ?w2 = "w1 \<lparr> console := console w1 @ [DownloadSummary s f] \<rparr>"
  let ?w3 = "if isEnabled (s3Uploader ?w2) then printSummary ?w2 else ?w2"
  let ?s3 = "if enabled (s3Uploader w1)
             then [S3Summary (uploaded (stats (s3Uploader w1))) (failed (stats (s3Uploader w1)))
                     (totalBytes (stats (s3Uploader w1)))]
             else []"
  let ?local = "if shouldKeepLocalFiles (s3Uploader w1) \<or> \<not> isEnabled (s3Uploader w1)
                then [FilesSavedTo (downloadsFolder (applicationId rt))] else []"
  have "console (downloadAllDocuments rt w links)
          = console w @ evs @ [DownloadSummary (delays evs) (failures evs)] @ (?s3 @ ?local)"
    using assms l e(1,3,4)
    by (simp add: downloadAllDocuments_def Let_def printSummary_def isEnabled_def)
  moreover have "delays (?s3 @ ?local) = 0" "failures (?s3 @ ?local) = 0"
    "started (?s3 @ ?local) = []" "summaries (?s3 @ ?local) = []"
    by (simp_all add: delays_def failures_def started_def summaries_def)
  ultimately show ?thesis
    using e(2,5,6) by (metis One_nat_def plus_1_eq_Suc)
qed

lemma persist_console_frame:
  "persist rt (w \<lparr> console := c \<rparr>) filename responseData
     = (fst (persist rt w filename responseData),
        (snd (persist rt w filename responseData)) \<lparr> console := c \<rparr>)"
  by (simp add: persist_def Let_def split: prod.splits sum.splits if_splits)

lemma persist_console_disk_frame:
  "persist rt (w \<lparr> console := c, disk := dk \<rparr>) filename responseData
     = (fst (persist rt (w \<lparr> disk := dk \<rparr>) filename responseData),
        (snd (persist rt (w \<lparr> disk := dk \<rparr>) filename responseData)) \<lparr> console := c \<rparr>)"
proof -
  have "w \<lparr> console := c, disk := dk \<rparr> = (w \<lparr> disk := dk \<rparr>) \<lparr> console := c \<rparr>"
    by (cases w) simp
  then show ?thesis
    by (simp only: persist_console_frame)
qed

lemma downloadFile_console_frame:
  "downloadFile rt (w \<lparr> console := c \<rparr>) address filename index n
     = (fst (downloadFile rt w address filename index n),
        (snd (downloadFile rt w address filename index n)) \<lparr> console := c @ [Downloading index n] \<rparr>)"
  by (simp add: downloadFile_def Let_def persist_console_disk_frame split: prod.splits sum.splits)

lemma count_Cons [simp]:
  "countFailed [] = 0" "countSucceeded [] = 0"
  "countFailed (r # rs) = (if isl r then 1 else 0) + countFailed rs"
  "countSucceeded (r # rs) = (if isl r then 0 else 1) + countSucceeded rs"
  by (simp_all add: countFailed_def countSucceeded_def)

lemma count_total: "countSucceeded rs + countFailed rs = length rs"
  by (induction rs) simp_all

lemma length_downloadResults: "length (downloadResults rt n i links w) = length links"
  by (induction links arbitrary: i w) (simp_all add: Let_def)

lemma downloadLoop_counts:
  "fst (downloadLoop rt n i links (s, f, w \<lparr> console := c \<rparr>))
     = s + countSucceeded (downloadResults rt n i links w)
   \<and> fst (snd (downloadLoop rt n i links (s, f, w \<lparr> console := c \<rparr>)))
     = f + countFailed (downloadResults rt n i links w)"
proof (induction links arbitrary: i s f w c)
  case Nil
  show ?case by simp
next
  case (Cons linkObj rest)
  let ?filename = "getFilenameFromUrl (url linkObj) (title linkObj) (dateNow rt i) (mathRandom rt i)"
  let ?r = "downloadFile rt w (url linkObj) ?filename (i + 1) n"
  have fr: "downloadFile rt (w \<lparr> console := c \<rparr>) (url linkObj) ?filename (i + 1) n
      = (fst ?r, (snd ?r) \<lparr> console := c @ [Downloading (i + 1) n] \<rparr>)"
    by (rule downloadFile_console_frame)
  have res: "downloadResults rt n i (linkObj # rest) w = fst ?r # downloadResults rt n (i + 1) rest (snd ?r)"
    by (simp add: Let_def)
  show ?case
  proof (cases "fst ?r")
    case (Inr u)
    have "downloadLoop rt n i (linkObj # rest) (s, f, w \<lparr> console := c \<rparr>)
        = downloadLoop rt n (i + 1) rest
            (s + 1, f, (snd ?r) \<lparr> console := (c @ [Downloading (i + 1) n]) @ [Delay 1000] \<rparr>)"
      using fr Inr by (simp add: Let_def)
    then show ?thesis
      unfolding res using Cons.IH [where i = "i + 1" and s = "s + 1" and f = f and w = "snd ?r"] Inr
      by simp
  next
    case (Inl e)
    have "downloadLoop rt n i (linkObj # rest) (s, f, w \<lparr> console := c \<rparr>)
        = downloadLoop rt n (i + 1) rest
            (s, f + 1, (snd ?r) \<lparr> console := (c @ [Downloading (i + 1) n]) @ [FailedToDownload (i + 1)] \<rparr>)"
      using fr Inl by (simp add: Let_def)
    then show ?thesis
      unfolding res using Cons.IH [where i = "i + 1" and s = s and f = "f + 1" and w = "snd ?r"] Inl
      by simp
  qed
qed

lemma downloadAllDocuments_results:
  assumes "links \<noteq> []"
  shows "\<exists>evs rest. console (downloadAllDocuments rt w links)
            = console w @ evs @ [DownloadSummary (delays evs) (failures evs)] @ rest
          \<and> started evs = [1..<Suc (length links)]
          \<and> delays evs = countSucceeded (downloadResults rt (length links) 0 links w)
          \<and> failures evs = countFailed (downloadResults rt (length links) 0 links w)
          \<and> summaries evs = []
          \<and> delays rest = 0 \<and> failures rest = 0 \<and> started rest = [] \<and> summaries rest = []"
proof -
  obtain s f w1 where l: "downloadLoop rt (length links) 0 links (0, 0, w) = (s, f, w1)"
    by (metis prod_cases3)
  have "w \<lparr> console := console w \<rparr> = w" by simp
  with downloadLoop_counts [where rt = rt and n = "length links" and i = 0 and links = links
      and s = 0 and f = 0 and w = w and c = "console w"] l
  have c: "s = countSucceeded (downloadResults rt (length links) 0 links w)"
    "f = countFailed (downloadResults rt (length links) 0 links w)"
    by simp_all
  from downloadLoop_console [OF l] obtain evs where
    e: "console w1 = console w @ evs" "started evs = [Suc 0..<Suc 0 + length links]"
      "s = delays evs" "f = failures evs" "summaries evs = []"
    by auto
  let ?s3 = "if enabled (s3Uploader w1)
             then [S3Summary (uploaded (stats (s3Uploader w1))) (failed (stats (s3Uploader w1)))
                     (totalBytes (stats (s3Uploader w1)))]
             else []"
  let ?local = "if shouldKeepLocalFiles (s3Uploader w1) \<or> \<not> isEnabled (s3Uploader w1)
                then [FilesSavedTo (downloadsFolder (applicationId rt))] else []"
  have "console (downloadAllDocuments rt w links)
          = console w @ evs @ [DownloadSummary (delays evs) (failures evs)] @ (?s3 @ ?local)"
    using assms l e(1,3,4)
    by (simp add: downloadAllDocuments_def Let_def printSummary_def isEnabled_def)
  moreover have "delays (?s3 @ ?local) = 0" "failures (?s3 @ ?local) = 0"
    "started (?s3 @ ?local) = []" "summaries (?s3 @ ?local) = []"
    by simp_all
  moreover have "started evs = [1..<Suc (length links)]"
    using e(2) by simp
  ultimately show ?thesis
    using c e(3,4,5) by metis
qed

text \<open>
  Claim C7 (batch resilience), as the code has it.  Let the results be what
  \<open>downloadFile\<close> returns for the references in turn (\<open>downloadResults\<close>), one per
  reference.  For a list that is not empty exactly one summary is printed; its success
  count is the number of calls that returned, its failure count the number of calls that
  threw, and the two add up to the number of references; one failure line is printed per
  failed call; and every reference from the first to the last was started, in order,
  whatever failed before it.  For the empty list only the warning is printed and no
  summary.
\<close>

theorem C7_batch_resilience:
  "(links \<noteq> [] \<longrightarrow>
      summaries (console (downloadAllDocuments rt w links))
        = summaries (console w)
          @ [(countSucceeded (downloadResults rt (length links) 0 links w),
              countFailed (downloadResults rt (length links) 0 links w))]
      \<and> failures (console (downloadAllDocuments rt w links))
        = failures (console w) + countFailed (downloadResults rt (length links) 0 links w)
      \<and> started (console (downloadAllDocuments rt w links))
        = started (console w) @ [1..<Suc (length links)])
   \<and> length (downloadResults rt (length links) 0 links w) = length links
   \<and> countSucceeded (downloadResults rt (length links) 0 links w)
       + countFailed (downloadResults rt (length links) 0 links w) = length links
   \<and> downloadAllDocuments rt w [] = w \<lparr> console := console w @ [NoDocumentsFound] \<rparr>"
proof -
  let ?rs = "downloadResults rt (length links) 0 links w"
  let ?c = "console (downloadAllDocuments rt w links)"
  have "summaries ?c = summaries (console w) @ [(countSucceeded ?rs, countFailed ?rs)]
      \<and> failures ?c = failures (console w) + countFailed ?rs
      \<and> started ?c = started (console w) @ [1..<Suc (length links)]"
    if "links \<noteq> []"
  proof -
    from downloadAllDocuments_results [OF that, of rt w] obtain evs rest where
      e: "?c = console w @ evs @ [DownloadSummary (delays evs) (failures evs)] @ rest"
        "started evs = [1..<Suc (length links)]" "delays evs = countSucceeded ?rs"
        "failures evs = countFailed ?rs"
        "summaries evs = []" "delays rest = 0" "failures rest = 0" "started rest = []"
        "summaries rest = []"
      by blast
    have "summaries ?c = summaries (console w) @ [(countSucceeded ?rs, countFailed ?rs)]"
      unfolding e(1) using e(3,4,5,9) by simp
    moreover have "failures ?c = failures (console w) + countFailed ?rs"
      unfolding e(1) using e(4,7) by simp
    moreover have "started ?c = started (console w) @ [1..<Suc (length links)]"
      unfolding e(1) using e(2,8) by simp
    ultimately show ?thesis by blast
  qed
  moreover have "length ?rs = length links"
    by (rule length_downloadResults)
  moreover have "countSucceeded ?rs + countFailed ?rs = length links"
    using count_total [of ?rs] length_downloadResults [of rt "length links" 0 links w] by simp
  moreover have "downloadAllDocuments rt w [] = w \<lparr> console := console w @ [NoDocumentsFound] \<rparr>"
    by (simp add: downloadAllDocuments_def)
  ultimately show ?thesis by blast
qed

section \<open>Runs at concrete inputs\<close>

lemma startup_local: "startup Map.empty (js ''2461047'') emptyDisk = Some localWorld"
  by (simp add: startup_def newS3Uploader_def localWorld_def emptyDisk_def isEnabled_def
      shouldKeepLocalFiles_def existsSync_def mkdirSync_def js_eval)

lemma startup_remoteOnly: "startup remoteOnlyEnv (js ''2461047'') emptyDisk = Some remoteOnlyWorld"
  by (simp add: startup_def remoteOnlySink remoteOnlyWorld_def isEnabled_def
      shouldKeepLocalFiles_def)

lemma collectLinks_twoRows:
  "collectLinks twoRows =
     [\<lparr> url = BASE_URL @ js ''/ViewFiles.aspx?docid=1'', title = js ''Site Plan'', docid = js ''1'' \<rparr>,
      \<lparr> url = BASE_URL @ js ''/ViewFiles.aspx?docid=2'', title = js ''Site Plan'', docid = js ''2'' \<rparr>]"
  by (simp add: collectLinks_def twoRows_def visitRow_def findViewFilesLinks_def planRow_def js_eval)

lemma downloadFile_offline:
  "downloadFile (testRuntime offlinePortal st) w address filename index n
     = (Inl (NetworkError (js ''timeout'')), w \<lparr> console := console w @ [Downloading index n] \<rparr>)"
  by (simp add: downloadFile_def resolveDocument_def testRuntime_def offlinePortal_def)

lemma downloadLoop_offline:
  "downloadLoop (testRuntime offlinePortal st) n 0 (collectLinks twoRows) (0, 0, w)
     = (0, 2, w \<lparr> console := console w @ [Downloading 1 n, FailedToDownload 1,
                                             Downloading 2 n, FailedToDownload 2] \<rparr>)"
  by (simp add: collectLinks_twoRows downloadFile_offline)

lemma downloadAllDocuments_offline:
  assumes "s3Uploader w = s3Uploader localWorld"
  shows "console (downloadAllDocuments (testRuntime offlinePortal rejectingStore) w
             (collectLinks twoRows))
     = console w @ [Downloading 1 2, FailedToDownload 1, Downloading 2 2, FailedToDownload 2,
        DownloadSummary 0 2, FilesSavedTo (js ''downloads_2461047'')]"
proof -
  have a: "applicationId (testRuntime offlinePortal rejectingStore) = js ''2461047''"
    by (simp add: testRuntime_def)
  have l: "length (collectLinks twoRows) = 2"
    by (simp add: collectLinks_twoRows)
  show ?thesis
    using assms
    by (simp add: downloadAllDocuments_def l downloadLoop_offline a localWorld_def isEnabled_def
        shouldKeepLocalFiles_def downloadsFolder_def js_def)
qed

text \<open>For the empty list no summary is produced.\<close>

theorem C7_empty_list_counterexample:
  "console (downloadAllDocuments (testRuntime offlinePortal rejectingStore) localWorld [])
     = [NoDocumentsFound]
   \<and> summaries (console (downloadAllDocuments (testRuntime offlinePortal rejectingStore) localWorld []))
     = []"
  by (simp add: downloadAllDocuments_def localWorld_def)

text \<open>
  Claim C6 (politeness delay) at two references that both fail: the pause stands in the
  \<^verbatim>\<open>try\<close> block after the download, so a failed document is followed by no pause, and
  the run of two documents pauses not once.
\<close>

theorem C6_no_pause_after_failure:
  "map_option console (run Map.empty (testRuntime offlinePortal rejectingStore) emptyDisk twoRows)
     = Some [Downloading 1 2, FailedToDownload 1, Downloading 2 2, FailedToDownload 2,
             DownloadSummary 0 2, FilesSavedTo (js ''downloads_2461047'')]
   \<and> map_option (delays \<circ> console)
        (run Map.empty (testRuntime offlinePortal rejectingStore) emptyDisk twoRows)
     = Some 0"
proof -
  let ?rt = "testRuntime offlinePortal rejectingStore"
  have a: "applicationId ?rt = js ''2461047''"
    by (simp add: testRuntime_def)
  let ?w1 = "localWorld \<lparr> disk := writeFileSync (disk localWorld) (js ''debug-links.txt'')
      (Text (joinLines (map (\<lambda>l. url l @ js '' - '' @ title l) (collectLinks twoRows)))) \<rparr>"
  have r: "run Map.empty ?rt emptyDisk twoRows
      = Some (downloadAllDocuments ?rt ?w1 (collectLinks twoRows))"
    by (simp add: run_def a startup_local listAndDownload_def Let_def)
  have "console (downloadAllDocuments ?rt ?w1 (collectLinks twoRows))
     = [Downloading 1 2, FailedToDownload 1, Downloading 2 2, FailedToDownload 2,
        DownloadSummary 0 2, FilesSavedTo (js ''downloads_2461047'')]"
    by (simp add: downloadAllDocuments_offline) (simp add: localWorld_def)
  then show ?thesis
    unfolding r by simp
qed

section \<open>Remote failure and the local fallback\<close>

lemma persist_upload_rejected:
  assumes "enabled (s3Uploader w)" and "client (s3Uploader w)"
    and "s3 rt (template (bucket (s3Uploader w)))
           (s3Key (s3Uploader w) (applicationId rt) (djvuToPdf filename)) responseData = Inl err"
  shows "persist rt w filename responseData =
     (case writeFileSyncIn (disk w) (downloadsFolder (applicationId rt)) (djvuToPdf filename)
             (Binary responseData) of
        Inr dk \<Rightarrow>
          (Inr (),
           w \<lparr> s3Uploader := (s3Uploader w)
                   \<lparr> stats := (stats (s3Uploader w)) \<lparr> failed := failed (stats (s3Uploader w)) + 1 \<rparr> \<rparr>,
               disk := dk \<rparr>)
      | Inl e \<Rightarrow>
          (Inl e,
           w \<lparr> s3Uploader := (s3Uploader w)
                   \<lparr> stats := (stats (s3Uploader w)) \<lparr> failed := failed (stats (s3Uploader w)) + 1 \<rparr> \<rparr> \<rparr>))"
  using assms
  by (simp add: persist_def upload_def isEnabled_def shouldKeepLocalFiles_def Let_def
      split: sum.splits)

lemma resolveDocument_pdfPortal:
  "resolveDocument (pdfPortal payload) dk address index = stage3 dk index payload"
  by (simp add: resolveDocument_def pdfPortal_def stage1_def stage2_def viewPage_def
      binaryPage_def dotBackslashFrame_def toFullUrl_def js_eval)

lemma stage3_pdf: "stage3 dk index (bytes ''%PDF-1.4'') = (Inr (bytes ''%PDF-1.4''), dk)"
  by (simp add: stage3_def js_eval text_eval)

lemma collectLinks_oneRow:
  "collectLinks [planRow ''ViewFiles.aspx?docid=1''] =
     [\<lparr> url = BASE_URL @ js ''/ViewFiles.aspx?docid=1'', title = js ''Site Plan'', docid = js ''1'' \<rparr>]"
  by (simp add: collectLinks_def visitRow_def findViewFilesLinks_def planRow_def js_eval)

lemma filename_oneRow:
  "getFilenameFromUrl (BASE_URL @ js ''/ViewFiles.aspx?docid=1'') (js ''Site Plan'') ts rnd
     = js ''1_Site_Plan.pdf''"
  by (simp add: getFilenameFromUrl_def cleanTitle_def js_eval)

text \<open>
  Claim C1 (remote-only run, every upload rejected) at one listed document that resolves
  to a PDF, on a disk without the downloads folder: the folder is not created at the
  start, the fallback write throws, the document is stored nowhere (the only file is
  \<^verbatim>\<open>debug-links.txt\<close>) and counts as a failed download; the sink counts one failed
  upload.
\<close>

theorem C1_remote_failure_loses_document:
  "map_option (\<lambda>w. (console w, dom (files (disk w)), dirs (disk w), stats (s3Uploader w)))
     (run remoteOnlyEnv (testRuntime (pdfPortal (bytes ''%PDF-1.4'')) rejectingStore) emptyDisk
        [planRow ''ViewFiles.aspx?docid=1''])
   = Some ([Downloading 1 1, FailedToDownload 1, DownloadSummary 0 1, S3Summary 0 1 0],
           {js ''debug-links.txt''}, {},
           \<lparr> uploaded = 0, failed = 1, totalBytes = 0 \<rparr>)"
proof -
  let ?rt = "testRuntime (pdfPortal (bytes ''%PDF-1.4'')) rejectingStore"
  let ?links = "collectLinks [planRow ''ViewFiles.aspx?docid=1'']"
  let ?w1 = "remoteOnlyWorld \<lparr> disk := writeFileSync (disk remoteOnlyWorld) (js ''debug-links.txt'')
      (Text (joinLines (map (\<lambda>l. url l @ js '' - '' @ title l) ?links))) \<rparr>"
  let ?w2 = "?w1 \<lparr> console := console ?w1 @ [Downloading 1 1] \<rparr>"
  let ?sink = "(s3Uploader ?w2)
                 \<lparr> stats := (stats (s3Uploader ?w2)) \<lparr> failed := failed (stats (s3Uploader ?w2)) + 1 \<rparr> \<rparr>"
  have a: "applicationId ?rt = js ''2461047''" and p: "site ?rt = pdfPortal (bytes ''%PDF-1.4'')"
    and st: "s3 ?rt = rejectingStore"
    by (simp_all add: testRuntime_def)
  have r: "run remoteOnlyEnv ?rt emptyDisk [planRow ''ViewFiles.aspx?docid=1'']
      = Some (downloadAllDocuments ?rt ?w1 ?links)"
    by (simp add: run_def a startup_remoteOnly listAndDownload_def Let_def)
  have nodir: "downloadsFolder (applicationId ?rt) \<notin> dirs (disk ?w2)"
    by (simp add: remoteOnlyWorld_def emptyDisk_def writeFileSync_def)
  have "persist ?rt ?w2 (js ''1_Site_Plan.pdf'') (bytes ''%PDF-1.4'')
      = (Inl (ENOENT (pathJoin (downloadsFolder (applicationId ?rt)) (djvuToPdf (js ''1_Site_Plan.pdf'')))),
         ?w2 \<lparr> s3Uploader := ?sink \<rparr>)"
    using nodir
    by (subst persist_upload_rejected [where err = "UploadError (js ''AccessDenied'')"])
       (simp_all add: st rejectingStore_def remoteOnlyWorld_def writeFileSyncIn_def)
  then have d: "downloadFile ?rt ?w1 (BASE_URL @ js ''/ViewFiles.aspx?docid=1'') (js ''1_Site_Plan.pdf'') 1 1
      = (Inl (ENOENT (pathJoin (downloadsFolder (applicationId ?rt)) (djvuToPdf (js ''1_Site_Plan.pdf'')))),
         ?w2 \<lparr> s3Uploader := ?sink \<rparr>)"
    by (simp add: downloadFile_def p resolveDocument_pdfPortal stage3_pdf)
  have "downloadLoop ?rt 1 0 ?links (0, 0, ?w1)
      = (0, 1, ?w2 \<lparr> s3Uploader := ?sink, console := console ?w2 @ [FailedToDownload 1] \<rparr>)"
    using d by (simp add: collectLinks_oneRow filename_oneRow)
  then have "downloadAllDocuments ?rt ?w1 ?links
      = (?w2 \<lparr> s3Uploader := ?sink,
              console := console ?w2 @ [FailedToDownload 1, DownloadSummary 0 1, S3Summary 0 1 0] \<rparr>)"
    by (simp add: downloadAllDocuments_def collectLinks_oneRow printSummary_def isEnabled_def
        shouldKeepLocalFiles_def remoteOnlyWorld_def)
  then show ?thesis
    unfolding r by (simp add: remoteOnlyWorld_def emptyDisk_def writeFileSync_def)
qed

section \<open>A batch with one failure\<close>

lemma resolve_firstFails:
  "resolveDocument firstFailsPortal dk (BASE_URL @ js ''/ViewFiles.aspx?docid=1'') i
     = (Inl (NetworkError (js ''timeout'')), dk)"
  "resolveDocument firstFailsPortal dk (BASE_URL @ js ''/ViewFiles.aspx?docid=2'') i
     = (Inr (bytes ''%PDF-1.4''), dk)"
proof -
  have 1: "includesStr (BASE_URL @ js ''/ViewFiles.aspx?docid=1'') (js ''docid=1'')"
    and 2: "\<not> includesStr (BASE_URL @ js ''/ViewFiles.aspx?docid=2'') (js ''docid=1'')"
    by (simp_all add: js_eval)
  show "resolveDocument firstFailsPortal dk (BASE_URL @ js ''/ViewFiles.aspx?docid=1'') i
     = (Inl (NetworkError (js ''timeout'')), dk)"
    using 1 by (simp add: resolveDocument_def firstFailsPortal_def)
  have "resolveDocument firstFailsPortal dk (BASE_URL @ js ''/ViewFiles.aspx?docid=2'') i
     = stage3 dk i (bytes ''%PDF-1.4'')"
    using 2
    by (simp add: resolveDocument_def firstFailsPortal_def pdfPortal_def stage1_def stage2_def
        viewPage_def binaryPage_def dotBackslashFrame_def toFullUrl_def js_eval)
  then show "resolveDocument firstFailsPortal dk (BASE_URL @ js ''/ViewFiles.aspx?docid=2'') i
     = (Inr (bytes ''%PDF-1.4''), dk)"
    by (simp add: stage3_pdf)
qed

lemma filename_twoRows:
  "getFilenameFromUrl (BASE_URL @ js ''/ViewFiles.aspx?docid=1'') (js ''Site Plan'') ts rnd
     = js ''1_Site_Plan.pdf''"
  "getFilenameFromUrl (BASE_URL @ js ''/ViewFiles.aspx?docid=2'') (js ''Site Plan'') ts rnd
     = js ''2_Site_Plan.pdf''"
  by (simp_all add: getFilenameFromUrl_def cleanTitle_def js_eval)

lemma persist_local:
  assumes "s3Uploader w = s3Uploader localWorld" and "dirs (disk w) = dirs (disk localWorld)"
  shows "fst (persist (testRuntime p st) w (js ''2_Site_Plan.pdf'') (bytes ''%PDF-1.4'')) = Inr ()"
  using assms
  by (simp add: persist_def localWorld_def isEnabled_def shouldKeepLocalFiles_def writeFileSyncIn_def
      testRuntime_def NAME_MAX_def js_eval text_eval)

lemma downloadResults_firstFails:
  "downloadResults (testRuntime firstFailsPortal rejectingStore) 2 0 (collectLinks twoRows) localWorld
     = [Inl (NetworkError (js ''timeout'')), Inr ()]"
proof -
  let ?rt = "testRuntime firstFailsPortal rejectingStore"
  have s: "site ?rt = firstFailsPortal"
    by (simp add: testRuntime_def)
  have 1: "downloadFile ?rt localWorld (BASE_URL @ js ''/ViewFiles.aspx?docid=1'') (js ''1_Site_Plan.pdf'') 1 2
      = (Inl (NetworkError (js ''timeout'')), localWorld \<lparr> console := console localWorld @ [Downloading 1 2] \<rparr>)"
    by (simp add: downloadFile_def s resolve_firstFails)
  have 2: "fst (downloadFile ?rt (localWorld \<lparr> console := c \<rparr>)
        (BASE_URL @ js ''/ViewFiles.aspx?docid=2'') (js ''2_Site_Plan.pdf'') i n) = Inr ()" for c i n
    by (simp add: downloadFile_def s resolve_firstFails persist_local)
  show ?thesis
    using 1 2 by (simp add: collectLinks_twoRows filename_twoRows Let_def)
qed

text \<open>
  C7 on two references of which the first fails and the second is stored, and on the
  empty list.
\<close>

theorem C7_batch_resilience_witness:
  "summaries (console (downloadAllDocuments (testRuntime firstFailsPortal rejectingStore) localWorld
      (collectLinks twoRows))) = [(1, 1)]
   \<and> failures (console (downloadAllDocuments (testRuntime firstFailsPortal rejectingStore) localWorld
      (collectLinks twoRows))) = 1
   \<and> started (console (downloadAllDocuments (testRuntime firstFailsPortal rejectingStore) localWorld
      (collectLinks twoRows))) = [1, 2]
   \<and> console (downloadAllDocuments (testRuntime firstFailsPortal rejectingStore) localWorld [])
      = [NoDocumentsFound]"
proof -
  let ?rt = "testRuntime firstFailsPortal rejectingStore"
  let ?c = "console (downloadAllDocuments ?rt localWorld (collectLinks twoRows))"
  have ne: "collectLinks twoRows \<noteq> []" and len: "length (collectLinks twoRows) = 2"
    by (simp_all add: collectLinks_twoRows)
  have c0: "console localWorld = []"
    by (simp add: localWorld_def)
  have up: "[1..<Suc 2] = [1, 2]"
    by (simp add: upt_rec)
  note t = C7_batch_resilience [of "collectLinks twoRows" ?rt localWorld]
  from t ne have 1: "summaries ?c = [(1, 1)]" and 2: "failures ?c = 1" and 3: "started ?c = [1, 2]"
    unfolding len downloadResults_firstFails c0 up by simp_all
  from t have "downloadAllDocuments ?rt localWorld []
      = localWorld \<lparr> console := console localWorld @ [NoDocumentsFound] \<rparr>"
    by blast
  then have 4: "console (downloadAllDocuments ?rt localWorld []) = [NoDocumentsFound]"
    by (simp add: c0)
  from 1 2 3 4 show ?thesis by blast
qed

section \<open>Further properties of the code\<close>

text \<open>
  When the upload of a resolved document is rejected, the local fallback stores the
  document exactly when the downloads folder exists and the filename is short enough for
  the file system; without the folder the write throws \<^verbatim>\<open>ENOENT\<close>, with a name of more
  than 255 bytes \<^verbatim>\<open>ENAMETOOLONG\<close>, and then nothing is stored and the call fails.  In
  every case the failure of the upload is counted once.
\<close>

theorem fallback_needs_downloads_folder:
  assumes "enabled (s3Uploader w)" and "client (s3Uploader w)"
    and "s3 rt (template (bucket (s3Uploader w)))
           (s3Key (s3Uploader w) (applicationId rt) (djvuToPdf filename)) responseData = Inl err"
  shows
    "(downloadsFolder (applicationId rt) \<in> dirs (disk w)
        \<and> length (utf8_encode (djvuToPdf filename)) \<le> NAME_MAX \<longrightarrow>
        fst (persist rt w filename responseData) = Inr ()
        \<and> files (disk (snd (persist rt w filename responseData)))
             (pathJoin (downloadsFolder (applicationId rt)) (djvuToPdf filename)) = Some responseData)
     \<and> (downloadsFolder (applicationId rt) \<notin> dirs (disk w) \<longrightarrow>
        fst (persist rt w filename responseData)
          = Inl (ENOENT (pathJoin (downloadsFolder (applicationId rt)) (djvuToPdf filename)))
        \<and> disk (snd (persist rt w filename responseData)) = disk w)
     \<and> (downloadsFolder (applicationId rt) \<in> dirs (disk w)
        \<and> length (utf8_encode (djvuToPdf filename)) > NAME_MAX \<longrightarrow>
        fst (persist rt w filename responseData)
          = Inl (ENAMETOOLONG (pathJoin (downloadsFolder (applicationId rt)) (djvuToPdf filename)))
        \<and> disk (snd (persist rt w filename responseData)) = disk w)
     \<and> failed (stats (s3Uploader (snd (persist rt w filename responseData))))
          = failed (stats (s3Uploader w)) + 1
     \<and> uploaded (stats (s3Uploader (snd (persist rt w filename responseData))))
          = uploaded (stats (s3Uploader w))"
  unfolding persist_upload_rejected [OF assms]
  by (simp add: writeFileSyncIn_def)

theorem fallback_needs_downloads_folder_witness:
  "fst (persist (testRuntime offlinePortal rejectingStore) remoteOnlyWorld (js ''1_Site_Plan.pdf'')
         (bytes ''%PDF-1.4''))
     = Inl (ENOENT (js ''downloads_2461047/1_Site_Plan.pdf''))
   \<and> fst (persist (testRuntime offlinePortal rejectingStore)
           (remoteOnlyWorld \<lparr> disk := mkdirSync emptyDisk (js ''downloads_2461047'') \<rparr>)
           (js ''1_Site_Plan.pdf'') (bytes ''%PDF-1.4''))
     = Inr ()
   \<and> files (disk (snd (persist (testRuntime offlinePortal rejectingStore)
           (remoteOnlyWorld \<lparr> disk := mkdirSync emptyDisk (js ''downloads_2461047'') \<rparr>)
           (js ''1_Site_Plan.pdf'') (bytes ''%PDF-1.4''))))
        (js ''downloads_2461047/1_Site_Plan.pdf'')
     = Some (bytes ''%PDF-1.4'')"
proof -
  let ?rt = "testRuntime offlinePortal rejectingStore"
  let ?w = "remoteOnlyWorld \<lparr> disk := mkdirSync emptyDisk (js ''downloads_2461047'') \<rparr>"
  have e: "enabled (s3Uploader remoteOnlyWorld)" "client (s3Uploader remoteOnlyWorld)"
    "enabled (s3Uploader ?w)" "client (s3Uploader ?w)"
    by (simp_all add: remoteOnlyWorld_def)
  have r: "s3 ?rt b k d = Inl (UploadError (js ''AccessDenied''))" for b k d
    by (simp add: testRuntime_def rejectingStore_def)
  have n: "pathJoin (downloadsFolder (applicationId ?rt)) (djvuToPdf (js ''1_Site_Plan.pdf''))
      = js ''downloads_2461047/1_Site_Plan.pdf''"
    by (simp add: testRuntime_def js_eval)
  have d: "downloadsFolder (applicationId ?rt) \<notin> dirs (disk remoteOnlyWorld)"
    "downloadsFolder (applicationId ?rt) \<in> dirs (disk ?w)"
    by (simp_all add: remoteOnlyWorld_def emptyDisk_def mkdirSync_def testRuntime_def js_eval)
  from fallback_needs_downloads_folder [where rt = ?rt and w = remoteOnlyWorld
      and filename = "js ''1_Site_Plan.pdf''" and responseData = "bytes ''%PDF-1.4''", OF e(1,2) r] d(1)
  have 1: "fst (persist ?rt remoteOnlyWorld (js ''1_Site_Plan.pdf'') (bytes ''%PDF-1.4''))
     = Inl (ENOENT (js ''downloads_2461047/1_Site_Plan.pdf''))"
    unfolding n by blast
  have short: "length (utf8_encode (djvuToPdf (js ''1_Site_Plan.pdf''))) \<le> NAME_MAX"
    by (simp add: NAME_MAX_def js_eval text_eval)
  from fallback_needs_downloads_folder [where rt = ?rt and w = ?w
      and filename = "js ''1_Site_Plan.pdf''" and responseData = "bytes ''%PDF-1.4''", OF e(3,4) r]
    d(2) short
  have 2: "fst (persist ?rt ?w (js ''1_Site_Plan.pdf'') (bytes ''%PDF-1.4'')) = Inr ()
     \<and> files (disk (snd (persist ?rt ?w (js ''1_Site_Plan.pdf'') (bytes ''%PDF-1.4''))))
          (js ''downloads_2461047/1_Site_Plan.pdf'') = Some (bytes ''%PDF-1.4'')"
    unfolding n by blast
  from 1 2 show ?thesis by blast
qed

text \<open>
  The downloads folder exists after the start exactly when it existed before, or local
  files are kept or the sink is disabled and no file has its name.
\<close>

theorem startup_downloads_folder:
  assumes "startup env appId disk0 = Some w"
  shows "(downloadsFolder appId \<in> dirs (disk w))
         = (downloadsFolder appId \<in> dirs disk0
            \<or> ((keepLocalFiles (s3Uploader w) \<or> \<not> enabled (s3Uploader w))
                \<and> files disk0 (downloadsFolder appId) = None))"
  using assms
  by (auto simp: startup_def existsSync_def mkdirSync_def isEnabled_def shouldKeepLocalFiles_def
      split: option.splits if_splits)

theorem startup_downloads_folder_witness:
  "js ''downloads_2461047'' \<in> dirs (disk localWorld)
   \<and> js ''downloads_2461047'' \<notin> dirs (disk remoteOnlyWorld)"
proof -
  have f: "downloadsFolder (js ''2461047'') = js ''downloads_2461047''"
    by (simp add: js_eval)
  from startup_downloads_folder [OF startup_local]
  have 1: "js ''downloads_2461047'' \<in> dirs (disk localWorld)"
    unfolding f by (simp add: localWorld_def emptyDisk_def)
  from startup_downloads_folder [OF startup_remoteOnly]
  have 2: "js ''downloads_2461047'' \<notin> dirs (disk remoteOnlyWorld)"
    unfolding f by (simp add: remoteOnlyWorld_def emptyDisk_def)
  from 1 2 show ?thesis by blast
qed

text \<open>
  A batch pauses once after every document that was downloaded, and never after a
  failed one: the number of pauses is the success count of the summary.
\<close>

theorem pauses_follow_successes:
  assumes "links \<noteq> []"
  shows "\<exists>successCount failCount.
           summaries (console (downloadAllDocuments rt w links))
             = summaries (console w) @ [(successCount, failCount)]
         \<and> delays (console (downloadAllDocuments rt w links)) = delays (console w) + successCount
         \<and> successCount + failCount = length links"
proof -
  from downloadAllDocuments_console [OF assms, of rt w] obtain evs rest where
    e: "console (downloadAllDocuments rt w links)
          = console w @ evs @ [DownloadSummary (delays evs) (failures evs)] @ rest"
      "delays evs + failures evs = length links" "summaries evs = []" "delays rest = 0"
      "summaries rest = []"
    by blast
  have "summaries (console (downloadAllDocuments rt w links))
          = summaries (console w) @ [(delays evs, failures evs)]"
    unfolding e(1) using e(3,5) by simp
  moreover have "delays (console (downloadAllDocuments rt w links)) = delays (console w) + delays evs"
    unfolding e(1) using e(4) by simp
  ultimately show ?thesis using e(2) by blast
qed

theorem pauses_follow_successes_witness:
  "delays (console (downloadAllDocuments (testRuntime offlinePortal rejectingStore) localWorld
      (collectLinks twoRows))) = 0"
proof -
  let ?rt = "testRuntime offlinePortal rejectingStore"
  let ?c = "console (downloadAllDocuments ?rt localWorld (collectLinks twoRows))"
  have ne: "collectLinks twoRows \<noteq> []"
    by (simp add: collectLinks_twoRows)
  have c0: "console localWorld = []"
    by (simp add: localWorld_def)
  from pauses_follow_successes [OF ne, of ?rt localWorld] obtain successCount failCount where
    s: "summaries ?c = summaries (console localWorld) @ [(successCount, failCount)]"
    and d: "delays ?c = delays (console localWorld) + successCount"
    by blast
  have "summaries ?c = [(0, 2)]"
    by (simp add: downloadAllDocuments_offline c0)
  with s have "successCount = 0"
    by (simp add: c0)
  with d show ?thesis
    by (simp add: c0)
qed

end
